theory Spec2Isabelle
  imports Complex_Main "HOL-Library.Word"
begin

section \<open>Numeric primitives\<close>

text \<open>
  The program computes in IEEE doubles. Throughout this development a \<^verbatim>\<open>double\<close> is
  modelled by an ideal \<^typ>\<open>real\<close>, a C \<^verbatim>\<open>int\<close> by \<^typ>\<open>int\<close> where no overflow can
  occur, and a \<^verbatim>\<open>ComplexNumber\<close> (fields \<^verbatim>\<open>a\<close>, \<^verbatim>\<open>b\<close>) by \<^typ>\<open>complex\<close>
  (\<^const>\<open>Re\<close>, \<^const>\<open>Im\<close>).
\<close>

datatype Vector = Vector (vx: real) (vy: real) (vz: real)

type_synonym Point = Vector

datatype ComplexVector = ComplexVector (cvx: complex) (cvy: complex) (cvz: complex)

text \<open>Index by axis, \<^verbatim>\<open>operator[]\<close>: 0 = x, 1 = y, 2 = z.\<close>

fun vidx :: "Vector \<Rightarrow> nat \<Rightarrow> real" where
  "vidx v ax = (if ax = 0 then vx v else if ax = 1 then vy v else vz v)"

fun vset :: "Vector \<Rightarrow> nat \<Rightarrow> real \<Rightarrow> Vector" where
  "vset (Vector a b c) ax w =
     (if ax = 0 then Vector w b c else if ax = 1 then Vector a w c else Vector a b w)"

text \<open>
  Modelled from the spec: the classes \<^verbatim>\<open>Vector\<close>, \<^verbatim>\<open>Point\<close>, \<^verbatim>\<open>ComplexNumber\<close>,
  \<^verbatim>\<open>ComplexVector\<close> and \<^verbatim>\<open>Matrix\<close> are used by the sources but not defined in them.
  Their operations follow section 3 and 4.1: dot and cross product, length, norm-to-unit,
  the vector from one point to another, Euler form, scalar times vector, the closed-form
  inverse of a 3x3 matrix and matrix times complex vector. \<open>Vector_norm\<close> of the zero
  vector is the zero vector here (HOL's \<open>0 / 0 = 0\<close>).
\<close>

definition Vector_dot :: "Vector \<Rightarrow> Vector \<Rightarrow> real" where
  "Vector_dot a b = vx a * vx b + vy a * vy b + vz a * vz b"

definition Vector_cross :: "Vector \<Rightarrow> Vector \<Rightarrow> Vector" where
  "Vector_cross a b =
     Vector (vy a * vz b - vz a * vy b) (vz a * vx b - vx a * vz b) (vx a * vy b - vy a * vx b)"

definition Vector_length :: "Vector \<Rightarrow> real" where
  "Vector_length a = sqrt (vx a * vx a + vy a * vy a + vz a * vz a)"

definition Vector_scale :: "Vector \<Rightarrow> real \<Rightarrow> Vector" where
  "Vector_scale a c = Vector (vx a * c) (vy a * c) (vz a * c)"

definition Vector_norm :: "Vector \<Rightarrow> Vector" where
  "Vector_norm a = Vector (vx a / Vector_length a) (vy a / Vector_length a) (vz a / Vector_length a)"

definition Vector_sub :: "Vector \<Rightarrow> Vector \<Rightarrow> Vector" where
  "Vector_sub a b = Vector (vx a - vx b) (vy a - vy b) (vz a - vz b)"

definition Vector_add :: "Vector \<Rightarrow> Vector \<Rightarrow> Vector" where
  "Vector_add a b = Vector (vx a + vx b) (vy a + vy b) (vz a + vz b)"

text \<open>\<^verbatim>\<open>Vector(p, q)\<close>, the vector from point p to point q.\<close>

definition Vector_between :: "Point \<Rightarrow> Point \<Rightarrow> Vector" where
  "Vector_between p q = Vector_sub q p"

definition Euler :: "real \<Rightarrow> real \<Rightarrow> complex" where
  "Euler mag phase = Complex (mag * cos phase) (mag * sin phase)"

definition cv_times :: "complex \<Rightarrow> Vector \<Rightarrow> ComplexVector" where
  "cv_times c v =
     ComplexVector (c * complex_of_real (vx v)) (c * complex_of_real (vy v))
       (c * complex_of_real (vz v))"

definition cv_add :: "ComplexVector \<Rightarrow> ComplexVector \<Rightarrow> ComplexVector" where
  "cv_add u v = ComplexVector (cvx u + cvx v) (cvy u + cvy v) (cvz u + cvz v)"

definition cv_scale :: "ComplexVector \<Rightarrow> real \<Rightarrow> ComplexVector" where
  "cv_scale u c =
     ComplexVector (cvx u * complex_of_real c) (cvy u * complex_of_real c)
       (cvz u * complex_of_real c)"

datatype Matrix = Matrix real real real real real real real real real

fun Matrix_det :: "Matrix \<Rightarrow> real" where
  "Matrix_det (Matrix a b c d e f g h i) =
     a * (e * i - f * h) - b * (d * i - f * g) + c * (d * h - e * g)"

fun Matrix_inverse :: "Matrix \<Rightarrow> Matrix" where
  "Matrix_inverse (Matrix a b c d e f g h i) =
     (let det = Matrix_det (Matrix a b c d e f g h i) in
      Matrix ((e * i - f * h) / det) ((c * h - b * i) / det) ((b * f - c * e) / det)
             ((f * g - d * i) / det) ((a * i - c * g) / det) ((c * d - a * f) / det)
             ((d * h - e * g) / det) ((b * g - a * h) / det) ((a * e - b * d) / det))"

fun Matrix_times :: "Matrix \<Rightarrow> ComplexVector \<Rightarrow> ComplexVector" where
  "Matrix_times (Matrix a b c d e f g h i) v =
     ComplexVector
       (complex_of_real a * cvx v + complex_of_real b * cvy v + complex_of_real c * cvz v)
       (complex_of_real d * cvx v + complex_of_real e * cvy v + complex_of_real f * cvz v)
       (complex_of_real g * cvx v + complex_of_real h * cvy v + complex_of_real i * cvz v)"

definition Matrix_unit :: Matrix where
  "Matrix_unit = Matrix 1 0 0 0 1 0 0 0 1"

section \<open>Geometry, rays and intersection results\<close>

text \<open>
  The two kinds of scene geometry, told apart by the \<^verbatim>\<open>type\<close> tag (\<^verbatim>\<open>TRIANGLE\<close>,
  \<^verbatim>\<open>SPHERE\<close>): a triangle with vertices a, b, c and normal n, and a receiver sphere with
  centre, radius and receiver index.
\<close>

datatype Geometry =
    Triangle (tri_a: Point) (tri_b: Point) (tri_c: Point) (tri_n: Vector)
  | RxSphere (sph_center: Point) (sph_radius: real) (sph_index: int)

datatype RayState = Start | FirstReflect | MoreReflect

record Ray =
  r_origin :: Point
  r_direction :: Vector
  r_unit_surface_area :: real
  r_state :: RayState
  r_prev_point :: Point
  r_prev_mileage :: real
  r_path :: "int list"

record IntersectResult =
  ir_hit :: bool
  ir_distance :: real
  ir_position :: Point
  ir_normal :: Vector
  ir_geometry :: "Geometry option"

record RxIntersection =
  rx_index :: int
  rx_distance :: real
  rx_offset :: real
  rx_radius :: real

text \<open>
  What the model makes of undefined behaviour in the source: an index outside a vector or
  the traversal stack, and a null geometry pointer that is dereferenced.
\<close>

datatype error = IndexOutOfRange | StackOutOfBounds | NullGeometry

text \<open>
  \<^verbatim>\<open>IntersectResult(false)\<close>. The constructor is not in the sources; on a miss the code
  reads nothing but \<^verbatim>\<open>hit\<close>, and the other fields are zero and a null geometry here.
\<close>

definition IntersectResult_miss :: IntersectResult where
  "IntersectResult_miss =
     \<lparr>ir_hit = False, ir_distance = 0, ir_position = Vector 0 0 0, ir_normal = Vector 0 0 0,
      ir_geometry = None\<rparr>"

section \<open>The k-d tree: split selection\<close>

text \<open>
  A node of the tree. In the source a leaf is a \<^verbatim>\<open>KdNode\<close> with \<^verbatim>\<open>axis == NoAxis\<close>, null
  children and the geometry list; an inner node has an axis (0, 1, 2), the split plane,
  two children and an empty list. Both carry the box \<^verbatim>\<open>min\<close>, \<^verbatim>\<open>max\<close>.
\<close>

datatype KdNode =
    Leaf (n_min: Point) (n_max: Point) (n_list: "Geometry list")
  | Node (n_min: Point) (n_max: Point) (n_axis: nat) (n_splitPlane: real) (n_left: KdNode)
      (n_right: KdNode)

text \<open>
  Modelled from the spec: the event types are declared in \<^verbatim>\<open>KdTreeAcc.h\<close>, which is not in
  the sources; \<^verbatim>\<open>(int)type\<close> orders them End, Planar, Start (section 4.3). An event
  also points to its geometry, which neither the comparison nor the sweep reads.
\<close>

datatype KdEventType = EvEnd | EvPlanar | EvStart

fun type_int :: "KdEventType \<Rightarrow> int" where
  "type_int EvEnd = 0"
| "type_int EvPlanar = 1"
| "type_int EvStart = 2"

record KdEvent =
  ev_position :: real
  ev_type :: KdEventType

definition cmpKdEvent :: "KdEvent \<Rightarrow> KdEvent \<Rightarrow> bool" where
  "cmpKdEvent a b \<longleftrightarrow>
     ev_position a < ev_position b \<or>
     (ev_position a = ev_position b \<and> type_int (ev_type a) < type_int (ev_type b))"

text \<open>
  \<^verbatim>\<open>std::sort\<close> with \<^verbatim>\<open>cmpKdEvent\<close>. Two events that the comparison does not order are
  equal as (position, type) pairs, so the sorted sequence is the same for every sorting
  algorithm; insertion sort computes it.
\<close>

fun insert_event :: "KdEvent \<Rightarrow> KdEvent list \<Rightarrow> KdEvent list" where
  "insert_event e [] = [e]"
| "insert_event e (x # xs) = (if cmpKdEvent e x then e # x # xs else x # insert_event e xs)"

definition sort_events :: "KdEvent list \<Rightarrow> KdEvent list" where
  "sort_events es = foldr insert_event es []"

text \<open>
  The event list of one axis. \<open>bb\<close> is \<^verbatim>\<open>getBoundingBox\<close>, which the geometry classes
  define outside the sources.
\<close>

fun gen_events :: "(Geometry \<Rightarrow> Point \<times> Point) \<Rightarrow> nat \<Rightarrow> Geometry list \<Rightarrow> KdEvent list" where
  "gen_events bb axis [] = []"
| "gen_events bb axis (g # gs) =
     (if vidx (fst (bb g)) axis = vidx (snd (bb g)) axis
      then [\<lparr>ev_position = vidx (fst (bb g)) axis, ev_type = EvPlanar\<rparr>]
      else [\<lparr>ev_position = vidx (fst (bb g)) axis, ev_type = EvStart\<rparr>,
            \<lparr>ev_position = vidx (snd (bb g)) axis, ev_type = EvEnd\<rparr>])
     @ gen_events bb axis gs"

text \<open>
  One of the three inner \<^verbatim>\<open>while\<close> loops of the sweep: it counts the events at the front
  that have the given position and type, and yields the count and the events left.
\<close>

fun take_events :: "real \<Rightarrow> KdEventType \<Rightarrow> KdEvent list \<Rightarrow> int \<times> KdEvent list" where
  "take_events position ty [] = (0, [])"
| "take_events position ty (e # es) =
     (if ev_position e = position \<and> ev_type e = ty
      then (fst (take_events position ty es) + 1, snd (take_events position ty es))
      else (0, e # es))"

text \<open>
  The cost that the sweep computes for the plane at \<open>position\<close>. For a box whose surface
  SA is zero the source divides by zero; HOL's \<open>x / 0 = 0\<close> stands in for that, and no
  result below rests on such a box.
\<close>

definition SAH_cost :: "Point \<Rightarrow> Point \<Rightarrow> nat \<Rightarrow> real \<Rightarrow> int \<Rightarrow> int \<Rightarrow> int \<Rightarrow> real" where
  "SAH_cost node_min node_max axis position NL NP NR =
     (let nextAxis = (axis + 1) mod 3;
          prevAxis = (axis + 2) mod 3;
          boxSize = Vector_between node_min node_max;
          width = vidx node_max axis - vidx node_min axis;
          leftWidth = position - vidx node_min axis;
          rightWidth = vidx node_max axis - position;
          height = vidx boxSize nextAxis;
          depth = vidx boxSize prevAxis;
          SAL = leftWidth * height + leftWidth * depth + height * depth;
          SAR = rightWidth * height + rightWidth * depth + height * depth;
          SA = width * height + width * depth + height * depth
      in 1 + 1.5 * ((SAL / SA) * real_of_int NL + SAR / SA * real_of_int (NR + NP)))"

text \<open>
  The sweep over the sorted events of one axis. The state is NL, NR and the best split so
  far (minSAH, minPosition, bestAxis).
\<close>

function sweep ::
  "Point \<Rightarrow> Point \<Rightarrow> nat \<Rightarrow> KdEvent list \<Rightarrow> int \<Rightarrow> int \<Rightarrow> real \<times> real \<times> nat \<Rightarrow> real \<times> real \<times> nat" where
  "sweep node_min node_max axis [] NL NR best = best"
| "sweep node_min node_max axis (e # es) NL NR best =
     (let position = ev_position e;
          ends = take_events position EvEnd (e # es);
          planars = take_events position EvPlanar (snd ends);
          starts = take_events position EvStart (snd planars);
          PE = fst ends; PP = fst planars; PS = fst starts;
          NP = PP;
          NR = NR - PP - PE;
          SAH = SAH_cost node_min node_max axis position NL NP NR;
          best = (if SAH < fst best then (SAH, position, axis) else best);
          NL = NL + PS + PP
      in sweep node_min node_max axis (snd starts) NL NR best)"
  by pat_completeness auto

lemma take_events_length: "length (snd (take_events position ty es)) \<le> length es"
  by (induction es) (simp_all add: le_SucI)

lemma take_events_head:
  "ev_type e = ty \<Longrightarrow> length (snd (take_events (ev_position e) ty (e # es))) \<le> length es"
  by (simp add: take_events_length)

lemma sweep_consumes:
  "length (snd (take_events (ev_position e) EvStart
             (snd (take_events (ev_position e) EvPlanar
                (snd (take_events (ev_position e) EvEnd (e # es))))))) < Suc (length es)"
proof (cases "ev_type e")
  case EvEnd
  have "length (snd (take_events (ev_position e) EvStart
             (snd (take_events (ev_position e) EvPlanar
                (snd (take_events (ev_position e) EvEnd (e # es)))))))
        \<le> length (snd (take_events (ev_position e) EvEnd (e # es)))"
    by (meson take_events_length le_trans)
  also have "\<dots> \<le> length es" using EvEnd by (rule take_events_head)
  finally show ?thesis by simp
next
  case EvPlanar
  then have "snd (take_events (ev_position e) EvEnd (e # es)) = e # es" by simp
  then have "length (snd (take_events (ev_position e) EvStart
             (snd (take_events (ev_position e) EvPlanar
                (snd (take_events (ev_position e) EvEnd (e # es)))))))
        \<le> length (snd (take_events (ev_position e) EvPlanar (e # es)))"
    by (simp only: take_events_length)
  also have "\<dots> \<le> length es" using EvPlanar by (rule take_events_head)
  finally show ?thesis by simp
next
  case EvStart
  then have "snd (take_events (ev_position e) EvPlanar
                (snd (take_events (ev_position e) EvEnd (e # es)))) = e # es" by simp
  then have "length (snd (take_events (ev_position e) EvStart
             (snd (take_events (ev_position e) EvPlanar
                (snd (take_events (ev_position e) EvEnd (e # es)))))))
        = length (snd (take_events (ev_position e) EvStart (e # es)))"
    by (simp only:)
  also have "\<dots> \<le> length es" using EvStart by (rule take_events_head)
  finally show ?thesis by simp
qed

termination sweep
  by (relation "measure (\<lambda>(node_min, node_max, axis, es, NL, NR, best). length es)")
    (simp_all del: take_events.simps add: sweep_consumes)

declare sweep.simps(2) [simp del]

text \<open>
  \<^verbatim>\<open>splitSAH\<close>: the result is (minPosition, bestAxis, minSAH). \<^verbatim>\<open>minPosition\<close> and the
  caller's \<^verbatim>\<open>axis\<close> are not initialised; \<open>position0\<close> and \<open>axis0\<close> are what they hold at
  the start. \<^verbatim>\<open>DBL_MAX\<close> is the largest finite double.
\<close>

definition DBL_MAX :: real where
  "DBL_MAX = (2 ^ 53 - 1) * 2 ^ 971"

definition splitSAH ::
  "(Geometry \<Rightarrow> Point \<times> Point) \<Rightarrow> real \<Rightarrow> nat \<Rightarrow> Point \<Rightarrow> Point \<Rightarrow> Geometry list \<Rightarrow>
     real \<times> nat \<times> real" where
  "splitSAH bb position0 axis0 node_min node_max list =
     (let best =
            foldl (\<lambda>best axis.
                     sweep node_min node_max axis (sort_events (gen_events bb axis list))
                       0 (int (length list)) best)
              (DBL_MAX, position0, axis0) [0, 1, 2]
      in (fst (snd best), snd (snd best), fst best))"

section \<open>The k-d tree: construction\<close>





text \<open>
  \<^verbatim>\<open>KdTreeAcc::init\<close>: the box of the root is the union of the boxes of the scene, and
  the tree is built from depth 0.
\<close>

definition scene_min :: "(Geometry \<Rightarrow> Point \<times> Point) \<Rightarrow> Geometry list \<Rightarrow> Point" where
  "scene_min bb list =
     foldl (\<lambda>m g. Vector (min (vx m) (vx (fst (bb g)))) (min (vy m) (vy (fst (bb g))))
                     (min (vz m) (vz (fst (bb g)))))
       (Vector DBL_MAX DBL_MAX DBL_MAX) list"

definition scene_max :: "(Geometry \<Rightarrow> Point \<times> Point) \<Rightarrow> Geometry list \<Rightarrow> Point" where
  "scene_max bb list =
     foldl (\<lambda>m g. Vector (max (vx m) (vx (snd (bb g)))) (max (vy m) (vy (snd (bb g))))
                     (max (vz m) (vz (snd (bb g)))))
       (Vector (- DBL_MAX) (- DBL_MAX) (- DBL_MAX)) list"


text \<open>
  Modelled from the spec: \<^verbatim>\<open>Triangle::getBoundingBox\<close> is not in the sources; the box of
  a triangle is the componentwise minimum and maximum of its vertices (section 3). For a
  sphere the specification gives no box; the cube around it is used.
\<close>

fun getBoundingBox :: "Geometry \<Rightarrow> Point \<times> Point" where
  "getBoundingBox (Triangle a b c n) =
     (Vector (min (vx a) (min (vx b) (vx c))) (min (vy a) (min (vy b) (vy c)))
        (min (vz a) (min (vz b) (vz c))),
      Vector (max (vx a) (max (vx b) (vx c))) (max (vy a) (max (vy b) (vy c)))
        (max (vz a) (max (vz b) (vz c))))"
| "getBoundingBox (RxSphere center radius index) =
     (Vector (vx center - radius) (vy center - radius) (vz center - radius),
      Vector (vx center + radius) (vy center + radius) (vz center + radius))"

section \<open>The k-d tree: traversal\<close>

record StackElem =
  se_t :: real
  se_pb :: Point
  se_node :: "KdNode option"
  se_prev :: int

record RxSphereInfo =
  si_distance :: real
  si_offset :: real
  si_radius :: real

text \<open>
  \<^verbatim>\<open>StackElem stack[50]\<close> is modelled by its memory, a function from index to element,
  and every read or write of \<^verbatim>\<open>stack[i]\<close> is preceded by the test \<open>in_stack i\<close>: an
  access outside the array ends the traversal with \<open>StackOutOfBounds\<close>.
\<close>

definition in_stack :: "int \<Rightarrow> bool" where
  "in_stack i \<longleftrightarrow> 0 \<le> i \<and> i < 50"

text \<open>
  The push of a far child: the new exit point is the next index, or the one after it when
  the next index is the entry point.
\<close>

definition push_far ::
  "Ray \<Rightarrow> nat \<Rightarrow> real \<Rightarrow> KdNode \<Rightarrow> int \<Rightarrow> int \<Rightarrow> (int \<Rightarrow> StackElem) \<Rightarrow>
     error + int \<times> (int \<Rightarrow> StackElem)" where
  "push_far ray axis splitVal farChild enPt exPt stack =
     (let nextAxis = (axis + 1) mod 3;
          prevAxis = (axis + 2) mod 3;
          t = (splitVal - vidx (r_origin ray) axis) / vidx (r_direction ray) axis;
          tmp = exPt;
          exPt = exPt + 1;
          exPt = (if exPt = enPt then exPt + 1 else exPt)
      in if in_stack exPt
         then Inr (exPt,
                stack(exPt :=
                  \<lparr>se_t = t,
                   se_pb = vset (vset (vset (se_pb (stack exPt)) axis splitVal)
                                   nextAxis (vidx (r_origin ray) nextAxis
                                             + t * vidx (r_direction ray) nextAxis))
                             prevAxis (vidx (r_origin ray) prevAxis
                                       + t * vidx (r_direction ray) prevAxis),
                   se_node = Some farChild,
                   se_prev = tmp\<rparr>))
         else Inl StackOutOfBounds)"

text \<open>
  The inner loop, from the current node down to a leaf. It yields the list of the leaf,
  the exit point and the stack.
\<close>

fun descend ::
  "Ray \<Rightarrow> KdNode \<Rightarrow> int \<Rightarrow> int \<Rightarrow> (int \<Rightarrow> StackElem) \<Rightarrow>
     error + Geometry list \<times> int \<times> (int \<Rightarrow> StackElem)" where
  "descend ray (Leaf mn mx list) enPt exPt stack = Inr (list, exPt, stack)"
| "descend ray (Node mn mx axis splitVal left right) enPt exPt stack =
     (if \<not> (in_stack enPt \<and> in_stack exPt) then Inl StackOutOfBounds
      else if vidx (se_pb (stack enPt)) axis \<le> splitVal then
        (if vidx (se_pb (stack exPt)) axis \<le> splitVal
         then descend ray left enPt exPt stack
         else if vidx (se_pb (stack exPt)) axis = splitVal
         then descend ray right enPt exPt stack
         else (case push_far ray axis splitVal right enPt exPt stack of
                 Inl e \<Rightarrow> Inl e
               | Inr (exPt', stack') \<Rightarrow> descend ray left enPt exPt' stack'))
      else
        (if splitVal < vidx (se_pb (stack exPt)) axis
         then descend ray right enPt exPt stack
         else (case push_far ray axis splitVal left enPt exPt stack of
                 Inl e \<Rightarrow> Inl e
               | Inr (exPt', stack') \<Rightarrow> descend ray right enPt exPt' stack')))"

text \<open>
  \<^verbatim>\<open>std::map<int, RxSphereInfo>\<close>: an association list with increasing keys, which is the
  order in which the map is iterated. \<open>map_set\<close> is the assignment of all three fields of
  \<^verbatim>\<open>rxIntersections[index]\<close>.
\<close>

fun map_set :: "int \<Rightarrow> 'v \<Rightarrow> (int \<times> 'v) list \<Rightarrow> (int \<times> 'v) list" where
  "map_set k v [] = [(k, v)]"
| "map_set k v ((k', v') # m) =
     (if k < k' then (k, v) # (k', v') # m
      else if k = k' then (k, v) # m
      else (k', v') # map_set k v m)"

fun is_sphere :: "Geometry \<Rightarrow> bool" where
  "is_sphere (Triangle a b c n) = False"
| "is_sphere (RxSphere center radius index) = True"

text \<open>The float literal \<^verbatim>\<open>0.001f\<close>, exactly.\<close>

definition guard_band :: real where
  "guard_band = 8589935 / 2 ^ 33"

text \<open>
  The loop over the list of a leaf. \<open>gi\<close> is the virtual \<^verbatim>\<open>Geometry::intersect\<close>; \<open>tEn\<close> and
  \<open>tEx\<close> are \<^verbatim>\<open>stack[enPt].t\<close> and \<^verbatim>\<open>stack[exPt].t\<close>. The state is minDistance, minResult
  and the map of receiver hits.
\<close>

fun leaf_loop ::
  "(Geometry \<Rightarrow> Ray \<Rightarrow> IntersectResult) \<Rightarrow> Ray \<Rightarrow> real \<Rightarrow> real \<Rightarrow> Geometry list \<Rightarrow>
     real \<times> IntersectResult \<times> (int \<times> RxSphereInfo) list \<Rightarrow>
     error + real \<times> IntersectResult \<times> (int \<times> RxSphereInfo) list" where
  "leaf_loop gi ray tEn tEx [] st = Inr st"
| "leaf_loop gi ray tEn tEx (g # gs) (minDistance, minResult, rxIntersections) =
     (let result = gi g ray in
      if ir_hit result \<and> ir_distance result \<ge> tEn - guard_band \<and>
         ir_distance result \<le> tEx + guard_band
      then
        (case ir_geometry result of
           None \<Rightarrow> Inl NullGeometry
         | Some s \<Rightarrow>
             if is_sphere s \<and> ir_distance result < minDistance
             then leaf_loop gi ray tEn tEx gs
                    (minDistance, minResult,
                     map_set (sph_index s)
                       \<lparr>si_distance = ir_distance result,
                        si_offset = Vector_length
                                      (Vector_between (ir_position result) (sph_center s)),
                        si_radius = sph_radius s\<rparr>
                       rxIntersections)
             else if ir_distance result < minDistance
             then leaf_loop gi ray tEn tEx gs (ir_distance result, result, rxIntersections)
             else leaf_loop gi ray tEn tEx gs (minDistance, minResult, rxIntersections))
      else leaf_loop gi ray tEn tEx gs (minDistance, minResult, rxIntersections))"

definition emit :: "int \<times> RxSphereInfo \<Rightarrow> RxIntersection" where
  "emit it =
     \<lparr>rx_index = fst it, rx_distance = si_distance (snd it), rx_offset = si_offset (snd it),
      rx_radius = si_radius (snd it)\<rparr>"

text \<open>
  The outer loop. One unit of fuel pays for one pass; \<open>None\<close> is a traversal that has not
  returned within the fuel. A traversal that returns yields the occluder result, the
  receiver list \<^verbatim>\<open>rxPoints\<close> after the call and, for the statement of properties, the map
  \<^verbatim>\<open>rxIntersections\<close> as it is at the return.
\<close>

fun traverse ::
  "nat \<Rightarrow> (Geometry \<Rightarrow> Ray \<Rightarrow> IntersectResult) \<Rightarrow> Ray \<Rightarrow> KdNode option \<Rightarrow> int \<Rightarrow> int \<Rightarrow>
     (int \<Rightarrow> StackElem) \<Rightarrow> (int \<times> RxSphereInfo) list \<Rightarrow> RxIntersection list \<Rightarrow>
     (error + IntersectResult \<times> RxIntersection list \<times> (int \<times> RxSphereInfo) list) option" where
  "traverse 0 gi ray currNode enPt exPt stack rxIntersections rxPoints = None"
| "traverse (Suc fuel) gi ray None enPt exPt stack rxIntersections rxPoints =
     Some (Inr (IntersectResult_miss, rxPoints @ map emit rxIntersections, rxIntersections))"
| "traverse (Suc fuel) gi ray (Some node) enPt exPt stack rxIntersections rxPoints =
     (case descend ray node enPt exPt stack of
        Inl e \<Rightarrow> Some (Inl e)
      | Inr (list, exPt, stack) \<Rightarrow>
          if \<not> (in_stack enPt \<and> in_stack exPt) then Some (Inl StackOutOfBounds)
          else
            (case leaf_loop gi ray (se_t (stack enPt)) (se_t (stack exPt)) list
                    (DBL_MAX, IntersectResult_miss, rxIntersections) of
               Inl e \<Rightarrow> Some (Inl e)
             | Inr (minDistance, minResult, rxIntersections) \<Rightarrow>
                 if ir_hit minResult
                 then Some (Inr (minResult,
                        rxPoints @ map emit
                          (filter (\<lambda>it. si_distance (snd it) < minDistance) rxIntersections),
                        rxIntersections))
                 else traverse fuel gi ray (se_node (stack exPt)) exPt (se_prev (stack exPt))
                        stack rxIntersections rxPoints))"

text \<open>
  \<^verbatim>\<open>KdTreeAcc::intersect\<close>. \<open>box_intersect\<close> is \<^verbatim>\<open>Grid::intersect\<close> of the box of the root:
  \<open>None\<close> when the ray misses the box, otherwise the entry and exit distances a and b.
  \<open>stack0\<close> is what the memory of the local array holds when the function is entered.
\<close>

definition KdTreeAcc_intersect ::
  "nat \<Rightarrow> (Point \<Rightarrow> Point \<Rightarrow> Ray \<Rightarrow> (real \<times> real) option) \<Rightarrow>
     (Geometry \<Rightarrow> Ray \<Rightarrow> IntersectResult) \<Rightarrow> (int \<Rightarrow> StackElem) \<Rightarrow> KdNode \<Rightarrow> Ray \<Rightarrow>
     RxIntersection list \<Rightarrow>
     (error + IntersectResult \<times> RxIntersection list \<times> (int \<times> RxSphereInfo) list) option" where
  "KdTreeAcc_intersect fuel box_intersect gi stack0 rootNode ray rxPoints =
     (case box_intersect (n_min rootNode) (n_max rootNode) ray of
        None \<Rightarrow> Some (Inr (IntersectResult_miss, rxPoints, []))
      | Some (a, b) \<Rightarrow>
          (let enPt = 0;
               stack = stack0(enPt := (stack0 enPt)
                         \<lparr>se_t := a,
                          se_pb := (if a \<ge> 0
                                    then Vector_add (r_origin ray) (Vector_scale (r_direction ray) a)
                                    else r_origin ray)\<rparr>);
               exPt = 1;
               stack = stack(exPt := (stack exPt)
                         \<lparr>se_t := b,
                          se_pb := Vector_add (r_origin ray) (Vector_scale (r_direction ray) b),
                          se_node := None\<rparr>)
           in traverse fuel gi ray (Some rootNode) enPt exPt stack [] rxPoints))"

text \<open>
  The exit entries in use: from the exit point, the \<^verbatim>\<open>prev\<close> links lead through the
  pushed far children \<open>ns\<close>, newest first, down to the terminating entry at index 1. A push
  links the new entry to an index one or two below it.
\<close>

fun exit_chain :: "(int \<Rightarrow> StackElem) \<Rightarrow> int \<Rightarrow> KdNode list \<Rightarrow> bool" where
  "exit_chain stack e [] \<longleftrightarrow> e = 1 \<and> se_node (stack 1) = None"
| "exit_chain stack e (n # ns) \<longleftrightarrow>
     se_node (stack e) = Some n \<and> se_prev (stack e) < e \<and> e \<le> se_prev (stack e) + 2 \<and>
     exit_chain stack (se_prev (stack e)) ns"

fun leaves :: "KdNode \<Rightarrow> nat" where
  "leaves (Leaf mn mx list) = 1"
| "leaves (Node mn mx axis splitVal left right) = leaves left + leaves right"

section \<open>Measures of a tree and concrete scenes\<close>

fun height :: "KdNode \<Rightarrow> nat" where
  "height (Leaf mn mx list) = 0"
| "height (Node mn mx axis splitVal left right) = Suc (max (height left) (height right))"

text \<open>
  The far children waiting on the stack, newest first, fit a tree of height \<open>H\<close>: each
  one, with the entries below it, stems from a different level of the path to it.
\<close>

fun pending_fits :: "nat \<Rightarrow> KdNode list \<Rightarrow> bool" where
  "pending_fits H [] \<longleftrightarrow> True"
| "pending_fits H (n # ns) \<longleftrightarrow> height n + length ns < H \<and> pending_fits H ns"



text \<open>
  The cost as the comment in \<^verbatim>\<open>splitSAH\<close> and the specification give it, with the
  on-plane geometries in the left term: KT + KI ((SAL / SA) (NL + NP) + (SAR / SA) NR),
  KT = 1, KI = 1.5. It is here to be compared with \<open>SAH_cost\<close>.
\<close>

definition SAH_cost_claimed :: "Point \<Rightarrow> Point \<Rightarrow> nat \<Rightarrow> real \<Rightarrow> int \<Rightarrow> int \<Rightarrow> int \<Rightarrow> real" where
  "SAH_cost_claimed node_min node_max axis position NL NP NR =
     (let nextAxis = (axis + 1) mod 3;
          prevAxis = (axis + 2) mod 3;
          width = vidx node_max axis - vidx node_min axis;
          leftWidth = position - vidx node_min axis;
          rightWidth = vidx node_max axis - position;
          height = vidx node_max nextAxis - vidx node_min nextAxis;
          depth = vidx node_max prevAxis - vidx node_min prevAxis;
          SAL = leftWidth * height + leftWidth * depth + height * depth;
          SAR = rightWidth * height + rightWidth * depth + height * depth;
          SA = width * height + width * depth + height * depth
      in 1 + 1.5 * ((SAL / SA) * real_of_int (NL + NP) + (SAR / SA) * real_of_int NR))"

text \<open>
  A room corner: one floor triangle from x = 0 to x = 3, two wall triangles in the plane
  x = 1 and six in the plane x = 2. Its box is (0,0,0) to (3,2,2).
\<close>

definition floor_tri :: Geometry where
  "floor_tri = Triangle (Vector 0 0 0) (Vector 3 0 0) (Vector 0 2 0) (Vector 0 0 1)"

definition wall_at :: "real \<Rightarrow> Geometry" where
  "wall_at c = Triangle (Vector c 0 0) (Vector c 2 0) (Vector c 0 2) (Vector 1 0 0)"

definition wall_scene :: "Geometry list" where
  "wall_scene =
     [floor_tri, wall_at 1, wall_at 1, wall_at 2, wall_at 2, wall_at 2, wall_at 2, wall_at 2,
      wall_at 2]"



section \<open>Session state of the engine\<close>

record RtParameter =
  p_permittivity :: real
  p_conductivity :: real
  p_maxReflections :: int
  p_raySpacing :: real
  p_frequency :: real
  p_lamda :: real
  p_k :: real

text \<open>
  \<^verbatim>\<open>RxFields\<close> is declared in a header that is not part of the sources. A bucket is
  represented by the sequence of \<^verbatim>\<open>AddField(field, path, offset)\<close> calls it has received,
  oldest first; its \<^verbatim>\<open>Sum()\<close> is a parameter of the read-out.
\<close>

type_synonym RxFields = "(ComplexVector \<times> int list \<times> real) list"

text \<open>
  The settings of the concrete scenarios of the specification (permittivity 5, conductivity
  0.01, 900 MHz, ray spacing 1 degree), with \<^verbatim>\<open>lamda\<close> and \<^verbatim>\<open>k\<close> as Simulate derives them.
\<close>

definition scenario_params :: "int \<Rightarrow> RtParameter" where
  "scenario_params maxRefl =
     \<lparr>p_permittivity = 5, p_conductivity = 1 / 100, p_maxReflections = maxRefl,
      p_raySpacing = 1, p_frequency = 900,
      p_lamda = 299792458 / (900 * 1000000),
      p_k = 2 * pi / (299792458 / (900 * 1000000))\<rparr>"

section \<open>Power read-out\<close>

definition calc_power :: "RtParameter \<Rightarrow> ComplexVector \<Rightarrow> real" where
  "calc_power ps E =
     (let norm_sqr =
            Re (cvx E) * Re (cvx E) + Im (cvx E) * Im (cvx E) +
            Re (cvy E) * Re (cvy E) + Im (cvy E) * Im (cvy E) +
            Re (cvz E) * Re (cvz E) + Im (cvz E) * Im (cvz E);
          watt = p_lamda ps * p_lamda ps / (8 * pi * 377) * norm_sqr
      in 10 * log 10 watt + 30)"

text \<open>
  \<^verbatim>\<open>GetRxPowers(double *powers, int n)\<close>. The caller's array is the memory behind the
  pointer, a function from element index to value; the loop runs over
  \<^verbatim>\<open>rxFields.size()\<close> and stores at \<^verbatim>\<open>powers[i]\<close>.
\<close>

definition GetRxPowers_body ::
  "(RxFields \<Rightarrow> ComplexVector) \<Rightarrow> RtParameter \<Rightarrow> real \<Rightarrow> RxFields list \<Rightarrow>
     (nat \<Rightarrow> real) \<Rightarrow> nat \<Rightarrow> (nat \<Rightarrow> real)" where
  "GetRxPowers_body sumf ps txPower rxFields powers i =
     (let sum = sumf (rxFields ! i) in
      if Re (cvx sum) = 0 \<and> Im (cvx sum) = 0 \<and>
         Re (cvy sum) = 0 \<and> Im (cvy sum) = 0 \<and>
         Re (cvz sum) = 0 \<and> Im (cvz sum) = 0
      then powers(i := txPower - 250)
      else powers(i := calc_power ps sum))"

definition GetRxPowers ::
  "(RxFields \<Rightarrow> ComplexVector) \<Rightarrow> RtParameter \<Rightarrow> real \<Rightarrow> RxFields list \<Rightarrow>
     (nat \<Rightarrow> real) \<Rightarrow> int \<Rightarrow> (nat \<Rightarrow> real)" where
  "GetRxPowers sumf ps txPower rxFields powers n =
     foldl (GetRxPowers_body sumf ps txPower rxFields) powers [0..<length rxFields]"

section \<open>Loading a binary STL model\<close>

text \<open>
  The file system is modelled by what \<^verbatim>\<open>fopen_s\<close> yields: \<open>None\<close> when the file cannot be
  opened, otherwise the bytes of the file. \<^verbatim>\<open>fread(ptr, size, 1, fp)\<close> copies up to
  \<^verbatim>\<open>size\<close> bytes of the stream over the destination and advances the stream; when fewer
  bytes are left, the tail of the destination keeps what it held before (\<open>old\<close>). The source
  never looks at the value \<^verbatim>\<open>fread\<close> returns. An \<^verbatim>\<open>int\<close> and a \<^verbatim>\<open>float\<close> take four bytes, a
  \<^verbatim>\<open>short\<close> two, and the machine is little-endian.
\<close>

type_synonym byte = "8 word"

definition fread :: "nat \<Rightarrow> byte list \<Rightarrow> byte list \<Rightarrow> byte list \<times> byte list" where
  "fread sz old fp = (take sz fp @ drop (length (take sz fp)) old, drop sz fp)"

text \<open>The 32-bit value of four bytes in memory, least significant byte first.\<close>

definition le32 :: "byte list \<Rightarrow> 32 word" where
  "le32 bs = foldr (\<lambda>b w. ucast b + 256 * w) bs 0"

text \<open>
  One pass of the loop body reads twelve floats and the attribute. The locals are not
  initialised: \<open>junk s\<close> is what the variable in slot s (0 to 11 the floats in the order
  they are read, 12 the attribute) holds before its read. \<open>f2d\<close> is the value, as a double,
  of the float with the given bits.
\<close>

definition read_triangle ::
  "(32 word \<Rightarrow> real) \<Rightarrow> (nat \<Rightarrow> byte list) \<Rightarrow> byte list \<Rightarrow> Geometry \<times> byte list" where
  "read_triangle f2d junk fp0 =
     (let (nx, fp1) = fread 4 (junk 0) fp0;
          (ny, fp2) = fread 4 (junk 1) fp1;
          (nz, fp3) = fread 4 (junk 2) fp2;
          (ax, fp4) = fread 4 (junk 3) fp3;
          (ay, fp5) = fread 4 (junk 4) fp4;
          (az, fp6) = fread 4 (junk 5) fp5;
          (bx, fp7) = fread 4 (junk 6) fp6;
          (by, fp8) = fread 4 (junk 7) fp7;
          (bz, fp9) = fread 4 (junk 8) fp8;
          (cx, fp10) = fread 4 (junk 9) fp9;
          (cy, fp11) = fread 4 (junk 10) fp10;
          (cz, fp12) = fread 4 (junk 11) fp11;
          (attribute, fp13) = fread 2 (junk 12) fp12;
          normal = Vector (f2d (le32 nx)) (f2d (le32 ny)) (f2d (le32 nz));
          a = Vector (f2d (le32 ax)) (f2d (le32 ay)) (f2d (le32 az));
          b = Vector (f2d (le32 bx)) (f2d (le32 by)) (f2d (le32 bz));
          c = Vector (f2d (le32 cx)) (f2d (le32 cy)) (f2d (le32 cz))
      in (Triangle a b c normal, fp13))"

function AddStlModel_loop ::
  "(32 word \<Rightarrow> real) \<Rightarrow> (nat \<Rightarrow> nat \<Rightarrow> byte list) \<Rightarrow> int \<Rightarrow> 32 word \<Rightarrow> byte list \<Rightarrow>
     Geometry list \<Rightarrow> Geometry list" where
  "AddStlModel_loop f2d junk i count fp scene =
     (if i < sint count
      then (let (t, fp') = read_triangle f2d (junk (nat i)) fp
            in AddStlModel_loop f2d junk (i + 1) count fp' (scene @ [t]))
      else scene)"
  by pat_completeness auto
termination
  by (relation "measure (\<lambda>(f2d, junk, i, count, fp, scene). nat (sint count - i))") auto

declare AddStlModel_loop.simps [simp del]

text \<open>
  \<^verbatim>\<open>AddStlModel\<close>: the result is the returned flag and the scene afterwards.
  \<^verbatim>\<open>count\<close> starts as -1 and the 80 bytes of the header are read and dropped.
\<close>

definition AddStlModel ::
  "(32 word \<Rightarrow> real) \<Rightarrow> (nat \<Rightarrow> nat \<Rightarrow> byte list) \<Rightarrow> byte list option \<Rightarrow>
     Geometry list \<Rightarrow> bool \<times> Geometry list" where
  "AddStlModel f2d junk file scene =
     (case file of
        None \<Rightarrow> (False, scene)
      | Some fp0 \<Rightarrow>
          (let (header, fp1) = fread 80 (replicate 80 0) fp0;
               (count, fp2) = fread 4 [255, 255, 255, 255] fp1
           in (True, AddStlModel_loop f2d junk 0 (le32 count) fp2 scene)))"

section \<open>Field kernels\<close>

definition calc_fresnel_coeff :: "RtParameter \<Rightarrow> real \<Rightarrow> complex \<times> complex" where
  "calc_fresnel_coeff ps psi =
     (let epsilon = Complex (p_permittivity ps) (- 60 * p_lamda ps * p_conductivity ps);
          eta = csqrt (epsilon - complex_of_real (cos psi * cos psi));
          RH = (epsilon * complex_of_real (sin psi) - eta) /
               (epsilon * complex_of_real (sin psi) + eta);
          RV = (Complex (sin psi) 0 - eta) / (Complex (sin psi) 0 + eta)
      in (RH, RV))"

text \<open>
  The literals \<^verbatim>\<open>0.1\<close> and \<^verbatim>\<open>0.00001\<close> of the source are the doubles nearest to the
  decimals, given here exactly: the first lies above 1/10, the second below 1/100000.
\<close>

definition dbl_0_1 :: real where
  "dbl_0_1 = 3602879701896397 / 2 ^ 55"

definition dbl_0_00001 :: real where
  "dbl_0_00001 = 5902958103587057 / 2 ^ 69"

text \<open>
  The two overloads of \<^verbatim>\<open>calc_new_base\<close>: \<open>calc_new_base_refl\<close> takes the incoming and the
  reflected direction and yields (alpha1, beta1, alpha2, beta2); \<open>calc_new_base\<close> takes one
  direction and yields (alpha, beta).
\<close>

definition calc_new_base_refl :: "Vector \<Rightarrow> Vector \<Rightarrow> Vector \<times> Vector \<times> Vector \<times> Vector" where
  "calc_new_base_refl axi axr =
     (let alpha1 = Vector_norm (Vector_cross axi axr);
          alpha1 = (if \<bar>vx alpha1\<bar> < dbl_0_00001 \<and> \<bar>vy alpha1\<bar> < dbl_0_00001 \<and>
                       \<bar>vz alpha1\<bar> < dbl_0_00001
                    then (if \<bar>vx axi\<bar> > dbl_0_1
                          then Vector_norm (Vector_cross (Vector 0 1 0) axi)
                          else Vector_norm (Vector_cross (Vector 1 0 0) axi))
                    else alpha1);
          beta1 = Vector_norm (Vector_cross axi alpha1);
          alpha2 = alpha1;
          beta2 = Vector_norm (Vector_cross axr alpha2)
      in (alpha1, beta1, alpha2, beta2))"

definition calc_new_base :: "Vector \<Rightarrow> Vector \<times> Vector" where
  "calc_new_base dir =
     (let alpha = (if \<bar>vx dir\<bar> > dbl_0_1
                   then Vector_cross (Vector 0 1 0) dir
                   else Vector_cross (Vector 1 0 0) dir);
          beta = Vector_cross dir alpha
      in (alpha, beta))"

text \<open>
  The two overloads of \<^verbatim>\<open>calc_field_direct\<close>: the launch field of a ray that leaves the
  transmitter, and \<open>calc_field_direct_E\<close>, the transport of a carried field \<open>Ei\<close>.
\<close>

definition calc_field_direct :: "RtParameter \<Rightarrow> real \<Rightarrow> Ray \<Rightarrow> real \<Rightarrow> ComplexVector" where
  "calc_field_direct ps txPower r distance =
     (let Pt = 10 powr (txPower / 10 - 3);
          eta0 = 377;
          phi_v = Vector_cross (Vector 0 0 1) (r_direction r);
          theta_v = Vector_cross phi_v (r_direction r);
          E_theta_mag = sqrt (Pt * eta0 / (2 * pi)) / distance;
          E_theta_phase = - p_k ps * distance;
          E_phi_mag = 0;
          E_phi_phase = 0;
          E_theta = Euler E_theta_mag E_theta_phase;
          E_phi = Euler E_phi_mag E_phi_phase
      in cv_add (cv_times E_theta theta_v) (cv_times E_phi phi_v))"

definition calc_field_direct_E :: "RtParameter \<Rightarrow> Ray \<Rightarrow> real \<Rightarrow> ComplexVector \<Rightarrow> ComplexVector" where
  "calc_field_direct_E ps r distance Ei =
     (let (alpha, beta) = calc_new_base (r_direction r);
          h = Matrix (vx alpha) (vx beta) (vx (r_direction r))
                     (vy alpha) (vy beta) (vy (r_direction r))
                     (vz alpha) (vz beta) (vz (r_direction r));
          inv = Matrix_inverse h;
          A = Matrix_times inv (Matrix_times Matrix_unit Ei);
          (E_alpha, E_beta) =
            (if r_state r = MoreReflect
             then (let factor = r_prev_mileage r / (r_prev_mileage r + distance)
                   in (cvx A * Euler factor (- p_k ps * distance),
                       cvy A * Euler factor (- p_k ps * distance)))
             else (0, 0))
      in cv_add (cv_times E_alpha alpha) (cv_times E_beta beta))"

definition reflect_dir :: "Vector \<Rightarrow> Vector \<Rightarrow> Vector" where
  "reflect_dir n dir =
     (let nl = (if Vector_dot n dir < 0 then n else Vector_scale n (- 1))
      in Vector_sub dir (Vector_scale (Vector_scale nl 2) (Vector_dot nl dir)))"

definition calc_field_reflect ::
  "RtParameter \<Rightarrow> Ray \<Rightarrow> IntersectResult \<Rightarrow> ComplexVector \<Rightarrow> ComplexVector" where
  "calc_field_reflect ps r result Ei =
     (let axi = r_direction r;
          axr = reflect_dir (ir_normal result) (r_direction r);
          psi = arccos (Vector_dot axi axr) / 2;
          (RH, RV) = calc_fresnel_coeff ps psi;
          (alpha1, beta1, alpha2, beta2) = calc_new_base_refl axi axr;
          h = Matrix (vx alpha1) (vx beta1) (vx axi)
                     (vy alpha1) (vy beta1) (vy axi)
                     (vz alpha1) (vz beta1) (vz axi);
          inv = Matrix_inverse h;
          A = Matrix_times inv (Matrix_times Matrix_unit Ei);
          (E_alpha, E_beta) =
            (if r_state r = FirstReflect
             then (cvx A * RV * 1, cvy A * RH * 1)
             else if r_state r = MoreReflect
             then (let s2 = Vector_length (Vector_between (r_prev_point r) (ir_position result));
                       factor = r_prev_mileage r / (r_prev_mileage r + s2)
                   in (cvx A * RV * Euler factor (- p_k ps * s2),
                       cvy A * RH * Euler factor (- p_k ps * s2)))
             else (0, 0))
      in cv_add (cv_times E_alpha alpha2) (cv_times E_beta beta2))"

text \<open>
  The part of a complex field that is transverse to the direction \<open>j\<close>, and a complex
  factor applied to a field; they state what the transport computes.
\<close>

definition transverse :: "Vector \<Rightarrow> ComplexVector \<Rightarrow> ComplexVector" where
  "transverse j E =
     (let p = cvx E * complex_of_real (vx j) + cvy E * complex_of_real (vy j) +
              cvz E * complex_of_real (vz j)
      in ComplexVector (cvx E - p * complex_of_real (vx j)) (cvy E - p * complex_of_real (vy j))
           (cvz E - p * complex_of_real (vz j)))"

definition cv_ctimes :: "complex \<Rightarrow> ComplexVector \<Rightarrow> ComplexVector" where
  "cv_ctimes w E = ComplexVector (w * cvx E) (w * cvy E) (w * cvz E)"

section \<open>The recursive trace\<close>

text \<open>
  \<^verbatim>\<open>rxFields[index].AddField(Ez, path, offset)\<close> on the vector of buckets.
\<close>

definition AddField_at ::
  "RxFields list \<Rightarrow> int \<Rightarrow> ComplexVector \<Rightarrow> int list \<Rightarrow> real \<Rightarrow> error + RxFields list" where
  "AddField_at rxFields idx Ez path offset =
     (if 0 \<le> idx \<and> idx < int (length rxFields)
      then Inr (rxFields[nat idx := rxFields ! nat idx @ [(Ez, path, offset)]])
      else Inl IndexOutOfRange)"

text \<open>The receiver loop of \<^verbatim>\<open>trace(r, depth, E)\<close>, with its zoom factor.\<close>

definition zoom :: "Ray \<Rightarrow> RxIntersection \<Rightarrow> ComplexVector \<Rightarrow> ComplexVector" where
  "zoom r s Ez =
     (let mileage = r_prev_mileage r + rx_distance s;
          projectionArea = r_unit_surface_area r * mileage * mileage;
          rxSphereArea = pi * rx_radius s * rx_radius s
      in if projectionArea < rxSphereArea
         then cv_scale Ez (sqrt (projectionArea / rxSphereArea))
         else Ez)"

fun trace_E_rx ::
  "RtParameter \<Rightarrow> Ray \<Rightarrow> ComplexVector \<Rightarrow> RxIntersection list \<Rightarrow> RxFields list \<Rightarrow>
     error + RxFields list" where
  "trace_E_rx ps r E [] rxFields = Inr rxFields"
| "trace_E_rx ps r E (s # rxSpheres) rxFields =
     (let Ez = calc_field_direct_E ps r (rx_distance s) E;
          Ez = zoom r s Ez
      in case AddField_at rxFields (rx_index s) Ez (r_path r) (rx_offset s) of
           Inl e \<Rightarrow> Inl e
         | Inr rxFields' \<Rightarrow> trace_E_rx ps r E rxSpheres rxFields')"

text \<open>The receiver loop of \<^verbatim>\<open>trace(r, depth)\<close>.\<close>

fun trace_rx ::
  "RtParameter \<Rightarrow> real \<Rightarrow> Ray \<Rightarrow> RxIntersection list \<Rightarrow> RxFields list \<Rightarrow>
     error + RxFields list" where
  "trace_rx ps txPower r [] rxFields = Inr rxFields"
| "trace_rx ps txPower r (s # rxSpheres) rxFields =
     (let Ez = calc_field_direct ps txPower r (rx_distance s)
      in case AddField_at rxFields (rx_index s) Ez (r_path r) (rx_offset s) of
           Inl e \<Rightarrow> Inl e
         | Inr rxFields' \<Rightarrow> trace_rx ps txPower r rxSpheres rxFields')"

text \<open>
  Modelled from the spec: the constructor of \<^verbatim>\<open>Ray\<close> and \<^verbatim>\<open>addPoint\<close> are not in the
  sources; a new ray has an empty path (section 4.5) and \<^verbatim>\<open>addPoint\<close> appends to it.
  \<open>spawn\<close> is the ray created at a hit, with the fields that the trace assigns; \<open>gindex\<close>
  reads the \<^verbatim>\<open>index\<close> member of a geometry.
\<close>

definition spawn :: "(Geometry \<Rightarrow> int) \<Rightarrow> Ray \<Rightarrow> IntersectResult \<Rightarrow> real \<Rightarrow> error + Ray" where
  "spawn gindex r result mileage =
     (case ir_geometry result of
        None \<Rightarrow> Inl NullGeometry
      | Some g \<Rightarrow>
          Inr \<lparr>r_origin = ir_position result,
               r_direction = reflect_dir (ir_normal result) (r_direction r),
               r_unit_surface_area = r_unit_surface_area r,
               r_state = MoreReflect,
               r_prev_point = ir_position result,
               r_prev_mileage = mileage,
               r_path = [] @ [gindex g]\<rparr>)"

text \<open>
  \<^verbatim>\<open>trace(Ray &r, int depth, const ComplexVector &E)\<close>. \<open>acc\<close> is
  \<^verbatim>\<open>accelerator->intersect\<close> called with an empty receiver list: it yields the occluder
  result and the receiver list.
\<close>

function trace_E ::
  "(Ray \<Rightarrow> IntersectResult \<times> RxIntersection list) \<Rightarrow> (Geometry \<Rightarrow> int) \<Rightarrow> RtParameter \<Rightarrow>
     Ray \<Rightarrow> int \<Rightarrow> ComplexVector \<Rightarrow> RxFields list \<Rightarrow> error + RxFields list" where
  "trace_E acc gindex ps r depth E rxFields =
     (let result = fst (acc r); rxSpheres = snd (acc r) in
      if depth > p_maxReflections ps then Inr rxFields
      else
        (case trace_E_rx ps r E rxSpheres rxFields of
           Inl e \<Rightarrow> Inl e
         | Inr rxFields' \<Rightarrow>
             if ir_hit result then
               if r_state r = MoreReflect then
                 (let Ei = calc_field_direct_E ps r (ir_distance result) E;
                      Er = calc_field_reflect ps r result Ei
                  in case spawn gindex r result (r_prev_mileage r + ir_distance result) of
                       Inl e \<Rightarrow> Inl e
                     | Inr newRay \<Rightarrow> trace_E acc gindex ps newRay (depth + 1) Er rxFields')
               else Inr rxFields'
             else Inr rxFields'))"
  by pat_completeness auto
termination
  by (relation "measure (\<lambda>(acc, gindex, ps, r, depth, E, rxFields).
                  nat (p_maxReflections ps + 1 - depth))") auto

declare trace_E.simps [simp del]

text \<open>
  \<^verbatim>\<open>trace(Ray &r, int depth)\<close>, the trace of a ray launched by the transmitter. The state
  of \<open>r\<close> is set to \<open>FirstReflect\<close> after the intersection and before the reflected field is
  computed.
\<close>

definition trace ::
  "(Ray \<Rightarrow> IntersectResult \<times> RxIntersection list) \<Rightarrow> (Geometry \<Rightarrow> int) \<Rightarrow> RtParameter \<Rightarrow>
     real \<Rightarrow> Ray \<Rightarrow> int \<Rightarrow> RxFields list \<Rightarrow> error + RxFields list" where
  "trace acc gindex ps txPower r depth rxFields =
     (let result = fst (acc r); rxSpheres = snd (acc r) in
      case (if rxSpheres \<noteq> [] \<and> r_state r = Start
            then trace_rx ps txPower r rxSpheres rxFields
            else Inr rxFields) of
        Inl e \<Rightarrow> Inl e
      | Inr rxFields' \<Rightarrow>
          if ir_hit result then
            if r_state r = Start then
              (let Ei = calc_field_direct ps txPower r (ir_distance result);
                   r' = r\<lparr>r_state := FirstReflect\<rparr>;
                   Er = calc_field_reflect ps r' result Ei
               in case spawn gindex r' result
                         (Vector_length (Vector_between (r_origin r') (ir_position result))) of
                    Inl e \<Rightarrow> Inl e
                  | Inr newRay \<Rightarrow> trace_E acc gindex ps newRay (depth + 1) Er rxFields')
            else Inr rxFields'
          else Inr rxFields')"

section \<open>Concrete rays, receivers and a small tree\<close>

text \<open>
  A ray as Simulate launches it, along the x axis, with the cell area of a spacing of
  about one degree; and a receiver sphere of radius 1 that it pierces at distance 9.
\<close>

definition launched_ray :: Ray where
  "launched_ray =
     \<lparr>r_origin = Vector 0 0 0, r_direction = Vector 1 0 0, r_unit_surface_area = 3 / 10000,
      r_state = Start, r_prev_point = Vector 0 0 0, r_prev_mileage = 0, r_path = []\<rparr>"

definition pierced_rx :: RxIntersection where
  "pierced_rx = \<lparr>rx_index = 0, rx_distance = 9, rx_offset = 1 / 2, rx_radius = 1\<rparr>"

text \<open>A ray after a reflection, with a unit direction whose x component exceeds 0.1.\<close>

definition reflected_ray :: Ray where
  "reflected_ray =
     \<lparr>r_origin = Vector 0 0 0, r_direction = Vector (3 / 5) (4 / 5) 0,
      r_unit_surface_area = 3 / 10000, r_state = MoreReflect,
      r_prev_point = Vector 0 0 0, r_prev_mileage = 5, r_path = [0]\<rparr>"

text \<open>A wall across the x axis at distance 10, hit by \<open>launched_ray\<close> behind the receiver.\<close>

definition wall_hit :: IntersectResult where
  "wall_hit =
     \<lparr>ir_hit = True, ir_distance = 10, ir_position = Vector 10 0 0, ir_normal = Vector (- 1) 0 0,
      ir_geometry = Some (Triangle (Vector 10 (- 5) (- 5)) (Vector 10 5 (- 5)) (Vector 10 0 5)
                            (Vector (- 1) 0 0))\<rparr>"

text \<open>
  A small tree for \<open>launched_ray\<close>: the plane x = 5 separates a leaf with receiver 0 from a
  leaf with receivers 2 and 1 and a wall at x = 10, receiver 2 lying behind the wall.
  \<open>on_axis_intersect\<close> is what the \<^verbatim>\<open>intersect\<close> methods yield for a ray from the origin
  along the x axis, on a triangle in a plane x = c that the axis crosses and on a sphere
  centred on the axis. The local array starts zeroed.
\<close>

definition on_axis_intersect :: "Geometry \<Rightarrow> Ray \<Rightarrow> IntersectResult" where
  "on_axis_intersect g ray =
     (case g of
        Triangle a b c n \<Rightarrow>
          \<lparr>ir_hit = True, ir_distance = vx a, ir_position = Vector (vx a) 0 0, ir_normal = n,
           ir_geometry = Some g\<rparr>
      | RxSphere center radius index \<Rightarrow>
          \<lparr>ir_hit = True, ir_distance = vx center - radius,
           ir_position = Vector (vx center - radius) 0 0, ir_normal = Vector (- 1) 0 0,
           ir_geometry = Some g\<rparr>)"

definition wall10 :: Geometry where
  "wall10 =
     Triangle (Vector 10 (- 5) (- 5)) (Vector 10 5 (- 5)) (Vector 10 0 5) (Vector (- 1) 0 0)"

definition wall_leaf :: KdNode where
  "wall_leaf =
     Leaf (Vector 5 (- 5) (- 5)) (Vector 13 5 5)
       [RxSphere (Vector 12 0 0) 1 2, RxSphere (Vector 8 0 0) 1 1, wall10]"

definition demo_tree :: KdNode where
  "demo_tree =
     Node (Vector 0 (- 5) (- 5)) (Vector 13 5 5) 0 5
       (Leaf (Vector 0 (- 5) (- 5)) (Vector 5 5 5) [RxSphere (Vector 3 0 0) 1 0])
       wall_leaf"

definition demo_stack :: "int \<Rightarrow> StackElem" where
  "demo_stack = (\<lambda>i. \<lparr>se_t = 0, se_pb = Vector 0 0 0, se_node = None, se_prev = 0\<rparr>)"

section \<open>Properties of the read-out\<close>

lemma GetRxPowers_body_other:
  "j \<noteq> i \<Longrightarrow> GetRxPowers_body sumf ps txPower rxFields powers i j = powers j"
  by (simp add: GetRxPowers_body_def Let_def)

lemma GetRxPowers_foldl_above:
  "\<forall>i \<in> set is. i \<noteq> j \<Longrightarrow>
   foldl (GetRxPowers_body sumf ps txPower rxFields) powers is j = powers j"
  by (induction "is" arbitrary: powers) (simp_all add: GetRxPowers_body_other)

lemma GetRxPowers_foldl_upt:
  "j < m \<Longrightarrow> m \<le> length rxFields \<Longrightarrow>
   foldl (GetRxPowers_body sumf ps txPower rxFields) powers [0..<m] j =
   GetRxPowers_body sumf ps txPower rxFields powers j j"
proof (induction m)
  case 0
  then show ?case by simp
next
  case (Suc m)
  show ?case
  proof (cases "j = m")
    case True
    have "foldl (GetRxPowers_body sumf ps txPower rxFields) powers [0..<Suc m] j =
          GetRxPowers_body sumf ps txPower rxFields
            (foldl (GetRxPowers_body sumf ps txPower rxFields) powers [0..<m]) m j"
      by simp
    also have "\<dots> = GetRxPowers_body sumf ps txPower rxFields powers j j"
      using True by (simp add: GetRxPowers_body_def Let_def)
    finally show ?thesis .
  next
    case False
    with Suc.prems have "j < m" by simp
    with Suc.IH Suc.prems have
      "foldl (GetRxPowers_body sumf ps txPower rxFields) powers [0..<m] j =
       GetRxPowers_body sumf ps txPower rxFields powers j j" by simp
    then show ?thesis using False by (simp add: GetRxPowers_body_other)
  qed
qed

text \<open>
  C7. GetRxPowers stores, at the position of every registered receiver (in registration
  order, the order of \<^verbatim>\<open>rxFields\<close>), txPower - 250 when all six components of the
  summed field are zero and 10 log10 (lambda^2 / (8 pi 377) |E|^2) + 30 otherwise.
\<close>

theorem GetRxPowers_values:
  assumes "i < length rxFields"
  shows "GetRxPowers sumf ps txPower rxFields powers n i =
     (let E = sumf (rxFields ! i) in
      if E = ComplexVector 0 0 0 then txPower - 250
      else 10 * log 10 (p_lamda ps ^ 2 / (8 * pi * 377) *
             ((cmod (cvx E))\<^sup>2 + (cmod (cvy E))\<^sup>2 + (cmod (cvz E))\<^sup>2)) + 30)"
proof -
  obtain a b c where E: "sumf (rxFields ! i) = ComplexVector a b c"
    by (cases "sumf (rxFields ! i)")
  have z: "(Re a = 0 \<and> Im a = 0 \<and> Re b = 0 \<and> Im b = 0 \<and> Re c = 0 \<and> Im c = 0) \<longleftrightarrow>
           (a = 0 \<and> b = 0 \<and> c = 0)"
    by (simp add: complex_eq_iff)
  have n2: "Re a * Re a + Im a * Im a + Re b * Re b + Im b * Im b + Re c * Re c + Im c * Im c =
            (cmod a)\<^sup>2 + (cmod b)\<^sup>2 + (cmod c)\<^sup>2"
    unfolding cmod_power2 by (simp add: power2_eq_square)
  have "GetRxPowers sumf ps txPower rxFields powers n i =
        GetRxPowers_body sumf ps txPower rxFields powers i i"
    unfolding GetRxPowers_def using assms by (rule GetRxPowers_foldl_upt) simp
  also have "\<dots> = (if a = 0 \<and> b = 0 \<and> c = 0 then txPower - 250
                   else calc_power ps (ComplexVector a b c))"
    using z by (simp add: GetRxPowers_body_def E Let_def)
  finally show ?thesis
    using n2 by (simp add: E Let_def calc_power_def power2_eq_square)
qed

theorem GetRxPowers_values_witness:
  "(1::nat) < length [[], [] :: RxFields] \<and>
   GetRxPowers (\<lambda>f. ComplexVector 0 0 0) (scenario_params 0) (20::real) [[], []] (\<lambda>i. 0) 0 1
     = -230"
  using GetRxPowers_values
    [of 1 "[[], []]" "\<lambda>f. ComplexVector 0 0 0" "scenario_params 0" 20 "\<lambda>i. 0" 0]
  by simp

text \<open>
  C10. The argument n plays no part: whatever n is, GetRxPowers stores one value for each
  of the \<^verbatim>\<open>rxFields.size()\<close> registered receivers, a value that does not depend on what
  the array held before, and leaves every later element of the array as it was.
\<close>

theorem GetRxPowers_ignores_n:
  "GetRxPowers sumf ps txPower rxFields powers n = GetRxPowers sumf ps txPower rxFields powers n' \<and>
   (\<forall>i < length rxFields.
      GetRxPowers sumf ps txPower rxFields powers n i =
      GetRxPowers sumf ps txPower rxFields powers' n' i) \<and>
   (\<forall>i \<ge> length rxFields. GetRxPowers sumf ps txPower rxFields powers n i = powers i)"
proof (intro conjI allI impI)
  show "GetRxPowers sumf ps txPower rxFields powers n = GetRxPowers sumf ps txPower rxFields powers n'"
    by (simp add: GetRxPowers_def)
next
  fix i assume "i < length rxFields"
  then have "\<And>pw. foldl (GetRxPowers_body sumf ps txPower rxFields) pw [0..<length rxFields] i =
                  GetRxPowers_body sumf ps txPower rxFields pw i i"
    by (intro GetRxPowers_foldl_upt) simp_all
  then show "GetRxPowers sumf ps txPower rxFields powers n i =
             GetRxPowers sumf ps txPower rxFields powers' n' i"
    by (simp add: GetRxPowers_def GetRxPowers_body_def Let_def)
next
  fix i assume "length rxFields \<le> i"
  then have "\<forall>j \<in> set [0..<length rxFields]. j \<noteq> i" by auto
  then show "GetRxPowers sumf ps txPower rxFields powers n i = powers i"
    unfolding GetRxPowers_def by (rule GetRxPowers_foldl_above)
qed

theorem GetRxPowers_ignores_n_witness:
  "GetRxPowers (\<lambda>f. ComplexVector 0 0 0) (scenario_params 0) (20::real) [[], []] (\<lambda>i. 7) 0 1 =
   GetRxPowers (\<lambda>f. ComplexVector 0 0 0) (scenario_params 0) 20 [[], []] (\<lambda>i. 9) 5 1 \<and>
   GetRxPowers (\<lambda>f. ComplexVector 0 0 0) (scenario_params 0) (20::real) [[], []] (\<lambda>i. 7) 0 2 = 7"
proof -
  have "(1::nat) < length [[], [] :: RxFields]" "length [[], [] :: RxFields] \<le> 2" by simp_all
  then show ?thesis
    using GetRxPowers_ignores_n
      [of "\<lambda>f. ComplexVector 0 0 0" "scenario_params 0" 20 "[[], []]" "\<lambda>i. 7" 0 5 "\<lambda>i. 9"]
    by blast
qed

section \<open>Properties of the STL loader\<close>

lemma AddStlModel_loop_appends:
  "\<exists>ts. AddStlModel_loop f2d junk i count fp scene = scene @ ts \<and>
        length ts = nat (sint count - i)"
proof (induction f2d junk i count fp scene rule: AddStlModel_loop.induct)
  case (1 f2d junk i count fp scene)
  show ?case
  proof (cases "i < sint count")
    case True
    obtain t fp' where r: "read_triangle f2d (junk (nat i)) fp = (t, fp')"
      by (cases "read_triangle f2d (junk (nat i)) fp")
    from "1.IH" [OF True r [symmetric] refl] obtain ts where
      ts: "AddStlModel_loop f2d junk (i + 1) count fp' (scene @ [t]) = (scene @ [t]) @ ts"
          "length ts = nat (sint count - (i + 1))" by blast
    have "AddStlModel_loop f2d junk i count fp scene = scene @ (t # ts)"
      using True r ts(1) by (subst AddStlModel_loop.simps) simp
    moreover have "length (t # ts) = nat (sint count - i)"
      using True ts(2) by simp
    ultimately show ?thesis by blast
  next
    case False
    then show ?thesis by (subst AddStlModel_loop.simps) simp
  qed
qed

text \<open>
  C8 as stated fails. The file below opens and is truncated: 80 header bytes and a count
  of 1, with no triangle record behind them. AddStlModel returns true and the scene has
  gained a triangle made of whatever the unread locals held.
\<close>

theorem AddStlModel_truncated_counterexample:
  "AddStlModel (\<lambda>w. 0) (\<lambda>i s. [0, 0, 0, 0]) (Some (replicate 80 0 @ [1, 0, 0, 0])) [] =
     (True, [Triangle (Vector 0 0 0) (Vector 0 0 0) (Vector 0 0 0) (Vector 0 0 0)])"
  by (simp add: AddStlModel_def fread_def le32_def AddStlModel_loop.simps read_triangle_def)

text \<open>
  C8, as the code has it. AddStlModel reports failure, with the scene as it was, when the
  file cannot be opened. For every file that opens it returns true, and the scene is the
  old scene followed by as many triangles as the count says: the count read from bytes
  80 to 83, or what is left of the initial -1 when the file ends before them.
\<close>

theorem AddStlModel_result:
  "AddStlModel f2d junk None scene = (False, scene) \<and>
   (\<exists>ts. AddStlModel f2d junk (Some fp) scene = (True, scene @ ts) \<and>
         length ts = nat (sint (le32 (fst (fread 4 [255, 255, 255, 255] (drop 80 fp))))))"
proof
  show "AddStlModel f2d junk None scene = (False, scene)"
    by (simp add: AddStlModel_def)
next
  let ?count = "le32 (fst (fread 4 [255, 255, 255, 255] (drop 80 fp)))"
  let ?fp2 = "snd (fread 4 [255, 255, 255, 255] (drop 80 fp))"
  have eq: "AddStlModel f2d junk (Some fp) scene =
            (True, AddStlModel_loop f2d junk 0 ?count ?fp2 scene)"
    by (simp add: AddStlModel_def fread_def Let_def split: prod.splits)
  obtain ts where "AddStlModel_loop f2d junk 0 ?count ?fp2 scene = scene @ ts"
    "length ts = nat (sint ?count - 0)"
    using AddStlModel_loop_appends by blast
  then show "\<exists>ts. AddStlModel f2d junk (Some fp) scene = (True, scene @ ts) \<and>
                  length ts = nat (sint ?count)"
    using eq by simp
qed

section \<open>Properties of the field kernels and the trace\<close>

lemma Euler_eq_0_iff: "Euler m p = 0 \<longleftrightarrow> m = 0"
proof
  assume "Euler m p = 0"
  then have c: "m * cos p = 0" and s: "m * sin p = 0"
    by (simp_all add: Euler_def complex_eq_iff)
  show "m = 0"
  proof (rule ccontr)
    assume "m \<noteq> 0"
    with c s have "cos p = 0" "sin p = 0" by simp_all
    then have "(sin p)\<^sup>2 + (cos p)\<^sup>2 = 0" by simp
    then show False by simp
  qed
next
  assume "m = 0"
  then show "Euler m p = 0" by (simp add: Euler_def complex_eq_iff)
qed

lemma Matrix_times_unit: "Matrix_times Matrix_unit v = v"
  by (cases v) (simp add: Matrix_unit_def)

lemma row_times_inverse:
  fixes p q r :: real and x y z :: complex
  shows "complex_of_real p *
           (complex_of_real k1 * x + complex_of_real k2 * y + complex_of_real k3 * z) +
         complex_of_real q *
           (complex_of_real l1 * x + complex_of_real l2 * y + complex_of_real l3 * z) +
         complex_of_real r *
           (complex_of_real m1 * x + complex_of_real m2 * y + complex_of_real m3 * z) =
         complex_of_real (p * k1 + q * l1 + r * m1) * x +
         complex_of_real (p * k2 + q * l2 + r * m2) * y +
         complex_of_real (p * k3 + q * l3 + r * m3) * z"
  by (simp add: algebra_simps)

lemma Matrix_times_inverse:
  assumes "Matrix_det m \<noteq> 0"
  shows "Matrix_times m (Matrix_times (Matrix_inverse m) v) = v"
proof -
  obtain a b c d e f g h i where m: "m = Matrix a b c d e f g h i" by (cases m)
  obtain x y z where v: "v = ComplexVector x y z" by (cases v)
  define D where "D = a * (e * i - f * h) - b * (d * i - f * g) + c * (d * h - e * g)"
  have D: "D \<noteq> 0" using assms by (simp add: m D_def)
  have comb:
    "\<And>p q r X Y Z. p * (X / D) + q * (Y / D) + r * (Z / D) = (p * X + q * Y + r * Z) / D"
    by (simp add: add_divide_distrib)
  have n1: "a * (e * i - f * h) + b * (f * g - d * i) + c * (d * h - e * g) = D"
           "a * (c * h - b * i) + b * (a * i - c * g) + c * (b * g - a * h) = 0"
           "a * (b * f - c * e) + b * (c * d - a * f) + c * (a * e - b * d) = 0"
    by (simp_all add: D_def algebra_simps)
  have n2: "d * (e * i - f * h) + e * (f * g - d * i) + f * (d * h - e * g) = 0"
           "d * (c * h - b * i) + e * (a * i - c * g) + f * (b * g - a * h) = D"
           "d * (b * f - c * e) + e * (c * d - a * f) + f * (a * e - b * d) = 0"
    by (simp_all add: D_def algebra_simps)
  have n3: "g * (e * i - f * h) + h * (f * g - d * i) + i * (d * h - e * g) = 0"
           "g * (c * h - b * i) + h * (a * i - c * g) + i * (b * g - a * h) = 0"
           "g * (b * f - c * e) + h * (c * d - a * f) + i * (a * e - b * d) = D"
    by (simp_all add: D_def algebra_simps)
  have r1: "a * ((e * i - f * h) / D) + b * ((f * g - d * i) / D) + c * ((d * h - e * g) / D) = 1"
           "a * ((c * h - b * i) / D) + b * ((a * i - c * g) / D) + c * ((b * g - a * h) / D) = 0"
           "a * ((b * f - c * e) / D) + b * ((c * d - a * f) / D) + c * ((a * e - b * d) / D) = 0"
    unfolding comb n1 using D by simp_all
  have r2: "d * ((e * i - f * h) / D) + e * ((f * g - d * i) / D) + f * ((d * h - e * g) / D) = 0"
           "d * ((c * h - b * i) / D) + e * ((a * i - c * g) / D) + f * ((b * g - a * h) / D) = 1"
           "d * ((b * f - c * e) / D) + e * ((c * d - a * f) / D) + f * ((a * e - b * d) / D) = 0"
    unfolding comb n2 using D by simp_all
  have r3: "g * ((e * i - f * h) / D) + h * ((f * g - d * i) / D) + i * ((d * h - e * g) / D) = 0"
           "g * ((c * h - b * i) / D) + h * ((a * i - c * g) / D) + i * ((b * g - a * h) / D) = 0"
           "g * ((b * f - c * e) / D) + h * ((c * d - a * f) / D) + i * ((a * e - b * d) / D) = 1"
    unfolding comb n3 using D by simp_all
  show ?thesis
    unfolding m v Matrix_inverse.simps Matrix_det.simps Let_def D_def [symmetric]
      Matrix_times.simps ComplexVector.sel row_times_inverse r1 r2 r3
    by simp
qed

lemma det_basis_y:
  fixes a b c :: real
  assumes "a * a + b * b + c * c = 1"
  shows "Matrix_det (Matrix c (- (a * b)) a 0 (a * a + c * c) b (- a) (- (b * c)) c) =
         a * a + c * c"
  using assms by simp algebra

lemma det_basis_x:
  fixes a b c :: real
  assumes "a * a + b * b + c * c = 1"
  shows "Matrix_det (Matrix 0 (b * b + c * c) a (- c) (- (a * b)) b b (- (a * c)) c) =
         b * b + c * c"
  using assms by simp algebra

lemma dbl_0_1_bounds: "0 < dbl_0_1" "dbl_0_1 \<le> 1 / 2" "1 / 10 < dbl_0_1"
  by (simp_all add: dbl_0_1_def)

text \<open>
  For a unit direction the transport basis is explicit and the matrix of columns
  (alpha, beta, j) has a determinant other than zero.
\<close>

lemma calc_new_base_unit:
  fixes a b c :: real
  assumes u: "a * a + b * b + c * c = 1"
  shows "(\<bar>a\<bar> > dbl_0_1 \<and> a * a + c * c \<noteq> 0 \<and>
          calc_new_base (Vector a b c) =
            (Vector c 0 (- a), Vector (- (a * b)) (a * a + c * c) (- (b * c)))) \<or>
         (\<not> \<bar>a\<bar> > dbl_0_1 \<and> b * b + c * c \<noteq> 0 \<and>
          calc_new_base (Vector a b c) =
            (Vector 0 (- c) b, Vector (b * b + c * c) (- (a * b)) (- (a * c))))"
proof (cases "\<bar>a\<bar> > dbl_0_1")
  case True
  with dbl_0_1_bounds(1) have "a \<noteq> 0" by auto
  then have "a * a + c * c \<noteq> 0" using sum_squares_eq_zero_iff [of a c] by blast
  with True show ?thesis by (simp add: calc_new_base_def Vector_cross_def)
next
  case False
  with dbl_0_1_bounds(2) have "\<bar>a\<bar> \<le> 1 / 2" by simp
  then have "\<bar>a\<bar> * \<bar>a\<bar> \<le> (1 / 2) * (1 / 2)" by (intro mult_mono) simp_all
  then have "a * a \<le> 1 / 4" by simp
  with u have "b * b + c * c = 1 - a * a" "1 - a * a > 0" by linarith+
  then have "b * b + c * c \<noteq> 0" by linarith
  with False show ?thesis by (simp add: calc_new_base_def Vector_cross_def)
qed

lemma transport_basis_det:
  assumes u: "vx j * vx j + vy j * vy j + vz j * vz j = 1"
  shows "Matrix_det (Matrix (vx (fst (calc_new_base j))) (vx (snd (calc_new_base j))) (vx j)
                            (vy (fst (calc_new_base j))) (vy (snd (calc_new_base j))) (vy j)
                            (vz (fst (calc_new_base j))) (vz (snd (calc_new_base j))) (vz j)) \<noteq> 0"
proof -
  obtain a b c where j: "j = Vector a b c" by (cases j)
  from u j have u': "a * a + b * b + c * c = 1" by simp
  from calc_new_base_unit [OF u'] show ?thesis
  proof
    assume h: "\<bar>a\<bar> > dbl_0_1 \<and> a * a + c * c \<noteq> 0 \<and>
          calc_new_base (Vector a b c) =
            (Vector c 0 (- a), Vector (- (a * b)) (a * a + c * c) (- (b * c)))"
    then show ?thesis
      unfolding j using det_basis_y [OF u'] by (simp del: Matrix_det.simps)
  next
    assume h: "\<not> \<bar>a\<bar> > dbl_0_1 \<and> b * b + c * c \<noteq> 0 \<and>
          calc_new_base (Vector a b c) =
            (Vector 0 (- c) b, Vector (b * b + c * c) (- (a * b)) (- (a * c)))"
    then show ?thesis
      unfolding j using det_basis_x [OF u'] by (simp del: Matrix_det.simps)
  qed
qed

lemma inverse_basis_y:
  fixes a b c :: real
  assumes u: "a * a + b * b + c * c = 1" and nz: "a * a + c * c \<noteq> 0"
  shows "Matrix_inverse (Matrix c (- (a * b)) a 0 (a * a + c * c) b (- a) (- (b * c)) c) =
         Matrix (c / (a * a + c * c)) 0 (- a / (a * a + c * c))
                (- (a * b) / (a * a + c * c)) 1 (- (b * c) / (a * a + c * c))
                a b c"
proof -
  have det: "Matrix_det (Matrix c (- (a * b)) a 0 (a * a + c * c) b (- a) (- (b * c)) c) = a * a + c * c"
    using u by simp algebra
  show ?thesis
    unfolding Matrix_inverse.simps det Let_def
    using nz u apply (simp add: field_simps)
    apply (intro conjI)
    apply algebra+
    done
qed

lemma inverse_basis_x:
  fixes a b c :: real
  assumes u: "a * a + b * b + c * c = 1" and nz: "b * b + c * c \<noteq> 0"
  shows "Matrix_inverse (Matrix 0 (b * b + c * c) a (- c) (- (a * b)) b b (- (a * c)) c) =
         Matrix 0 (- c / (b * b + c * c)) (b / (b * b + c * c))
                1 (- (a * b) / (b * b + c * c)) (- (a * c) / (b * b + c * c))
                a b c"
proof -
  have det: "Matrix_det (Matrix 0 (b * b + c * c) a (- c) (- (a * b)) b b (- (a * c)) c) = b * b + c * c"
    using u by simp algebra
  show ?thesis
    unfolding Matrix_inverse.simps det Let_def
    using nz u apply (simp add: field_simps)
    apply (intro conjI)
    apply algebra+
    done
qed

lemma recompose_y:
  fixes A B C D ex ey ez w :: complex
  assumes "D \<noteq> 0" "D = A * A + C * C" "A * A + B * B + C * C = 1"
  shows "(C / D * ex + (- A / D) * ez) * w * C + ((- (A * B) / D) * ex + ey + (- (B * C) / D) * ez) * w * (- (A * B)) =
         w * (ex - (ex * A + ey * B + ez * C) * A)"
    and "((- (A * B) / D) * ex + ey + (- (B * C) / D) * ez) * w * D =
         w * (ey - (ex * A + ey * B + ez * C) * B)"
    and "(C / D * ex + (- A / D) * ez) * w * (- A) + ((- (A * B) / D) * ex + ey + (- (B * C) / D) * ez) * w * (- (B * C)) =
         w * (ez - (ex * A + ey * B + ez * C) * C)"
proof -
  have "D * ((C / D * ex + (- A / D) * ez) * w * C + ((- (A * B) / D) * ex + ey + (- (B * C) / D) * ez) * w * (- (A * B))) =
        (C * ex - A * ez) * w * C + (- (A * B) * ex + D * ey - (B * C) * ez) * w * (- (A * B))"
    using assms(1) by (simp add: field_simps)
  also have "\<dots> = D * (w * (ex - (ex * A + ey * B + ez * C) * A))"
    using assms(2,3) by algebra
  finally show "(C / D * ex + (- A / D) * ez) * w * C + ((- (A * B) / D) * ex + ey + (- (B * C) / D) * ez) * w * (- (A * B)) =
         w * (ex - (ex * A + ey * B + ez * C) * A)" using assms(1) by simp
  have "((- (A * B) / D) * ex + ey + (- (B * C) / D) * ez) * w * D =
        (- (A * B) * ex + D * ey - (B * C) * ez) * w"
    using assms(1) by (simp add: field_simps)
  also have "\<dots> = w * (ey - (ex * A + ey * B + ez * C) * B)"
    using assms(2,3) by algebra
  finally show "((- (A * B) / D) * ex + ey + (- (B * C) / D) * ez) * w * D =
         w * (ey - (ex * A + ey * B + ez * C) * B)" .
  have "D * ((C / D * ex + (- A / D) * ez) * w * (- A) + ((- (A * B) / D) * ex + ey + (- (B * C) / D) * ez) * w * (- (B * C))) =
        (C * ex - A * ez) * w * (- A) + (- (A * B) * ex + D * ey - (B * C) * ez) * w * (- (B * C))"
    using assms(1) by (simp add: field_simps)
  also have "\<dots> = D * (w * (ez - (ex * A + ey * B + ez * C) * C))"
    using assms(2,3) by algebra
  finally show "(C / D * ex + (- A / D) * ez) * w * (- A) + ((- (A * B) / D) * ex + ey + (- (B * C) / D) * ez) * w * (- (B * C)) =
         w * (ez - (ex * A + ey * B + ez * C) * C)" using assms(1) by simp
qed

lemma recompose_x:
  fixes A B C D ex ey ez w :: complex
  assumes "D \<noteq> 0" "D = B * B + C * C" "A * A + B * B + C * C = 1"
  shows "(ex + (- (A * B) / D) * ey + (- (A * C) / D) * ez) * w * D =
         w * (ex - (ex * A + ey * B + ez * C) * A)"
    and "((- C / D) * ey + (B / D) * ez) * w * (- C) + (ex + (- (A * B) / D) * ey + (- (A * C) / D) * ez) * w * (- (A * B)) =
         w * (ey - (ex * A + ey * B + ez * C) * B)"
    and "((- C / D) * ey + (B / D) * ez) * w * B + (ex + (- (A * B) / D) * ey + (- (A * C) / D) * ez) * w * (- (A * C)) =
         w * (ez - (ex * A + ey * B + ez * C) * C)"
proof -
  have "(ex + (- (A * B) / D) * ey + (- (A * C) / D) * ez) * w * D =
        (D * ex - (A * B) * ey - (A * C) * ez) * w"
    using assms(1) by (simp add: field_simps)
  also have "\<dots> = w * (ex - (ex * A + ey * B + ez * C) * A)"
    using assms(2,3) by algebra
  finally show "(ex + (- (A * B) / D) * ey + (- (A * C) / D) * ez) * w * D =
         w * (ex - (ex * A + ey * B + ez * C) * A)" .
  have "D * (((- C / D) * ey + (B / D) * ez) * w * (- C) + (ex + (- (A * B) / D) * ey + (- (A * C) / D) * ez) * w * (- (A * B))) =
        (- C * ey + B * ez) * w * (- C) + (D * ex - (A * B) * ey - (A * C) * ez) * w * (- (A * B))"
    using assms(1) by (simp add: field_simps)
  also have "\<dots> = D * (w * (ey - (ex * A + ey * B + ez * C) * B))"
    using assms(2,3) by algebra
  finally show "((- C / D) * ey + (B / D) * ez) * w * (- C) + (ex + (- (A * B) / D) * ey + (- (A * C) / D) * ez) * w * (- (A * B)) =
         w * (ey - (ex * A + ey * B + ez * C) * B)" using assms(1) by simp
  have "D * (((- C / D) * ey + (B / D) * ez) * w * B + (ex + (- (A * B) / D) * ey + (- (A * C) / D) * ez) * w * (- (A * C))) =
        (- C * ey + B * ez) * w * B + (D * ex - (A * B) * ey - (A * C) * ez) * w * (- (A * C))"
    using assms(1) by (simp add: field_simps)
  also have "\<dots> = D * (w * (ez - (ex * A + ey * B + ez * C) * C))"
    using assms(2,3) by algebra
  finally show "((- C / D) * ey + (B / D) * ez) * w * B + (ex + (- (A * B) / D) * ey + (- (A * C) / D) * ez) * w * (- (A * C)) =
         w * (ez - (ex * A + ey * B + ez * C) * C)" using assms(1) by simp
qed


lemma bridge_y:
  fixes a b c :: real and ex ey ez w :: complex
  assumes u: "a * a + b * b + c * c = 1" and nz: "a * a + c * c \<noteq> 0"
  shows "cv_add
           (cv_times (cvx (Matrix_times
                (Matrix (c / (a * a + c * c)) 0 (- a / (a * a + c * c))
                   (- (a * b) / (a * a + c * c)) 1 (- (b * c) / (a * a + c * c)) a b c)
                (ComplexVector ex ey ez)) * w) (Vector c 0 (- a)))
           (cv_times (cvy (Matrix_times
                (Matrix (c / (a * a + c * c)) 0 (- a / (a * a + c * c))
                   (- (a * b) / (a * a + c * c)) 1 (- (b * c) / (a * a + c * c)) a b c)
                (ComplexVector ex ey ez)) * w) (Vector (- (a * b)) (a * a + c * c) (- (b * c)))) =
         cv_ctimes w (transverse (Vector a b c) (ComplexVector ex ey ez))"
proof -
  define A where "A = complex_of_real a"
  define B where "B = complex_of_real b"
  define C where "C = complex_of_real c"
  define D where "D = A * A + C * C"
  have D: "complex_of_real (a * a + c * c) = D" by (simp add: D_def A_def C_def)
  have Dnz: "D \<noteq> 0" using nz D of_real_eq_0_iff [where 'a = complex] by metis
  have "complex_of_real (a * a + b * b + c * c) = 1" using u by simp
  then have U: "A * A + B * B + C * C = 1" by (simp add: A_def B_def C_def)
  note R = recompose_y [where ex = ex and ey = ey and ez = ez and w = w, OF Dnz D_def U]
  have m: "Matrix_times
                (Matrix (c / (a * a + c * c)) 0 (- a / (a * a + c * c))
                   (- (a * b) / (a * a + c * c)) 1 (- (b * c) / (a * a + c * c)) a b c)
                (ComplexVector ex ey ez) =
           ComplexVector (C / D * ex + (- A / D) * ez)
             ((- (A * B) / D) * ex + ey + (- (B * C) / D) * ez)
             (A * ex + B * ey + C * ez)"
    unfolding Matrix_times.simps ComplexVector.sel of_real_divide of_real_minus D of_real_mult
      A_def [symmetric] B_def [symmetric] C_def [symmetric]
    by simp
  show ?thesis
    unfolding m cv_add_def cv_times_def cv_ctimes_def transverse_def Let_def ComplexVector.sel
      Vector.sel of_real_minus of_real_mult D A_def [symmetric] B_def [symmetric] C_def [symmetric]
    using R by (simp only: ComplexVector.inject of_real_0 mult_zero_right add_0_left simp_thms)
qed


lemma bridge_x:
  fixes a b c :: real and ex ey ez w :: complex
  assumes u: "a * a + b * b + c * c = 1" and nz: "b * b + c * c \<noteq> 0"
  shows "cv_add
           (cv_times (cvx (Matrix_times
                (Matrix 0 (- c / (b * b + c * c)) (b / (b * b + c * c))
                   1 (- (a * b) / (b * b + c * c)) (- (a * c) / (b * b + c * c)) a b c)
                (ComplexVector ex ey ez)) * w) (Vector 0 (- c) b))
           (cv_times (cvy (Matrix_times
                (Matrix 0 (- c / (b * b + c * c)) (b / (b * b + c * c))
                   1 (- (a * b) / (b * b + c * c)) (- (a * c) / (b * b + c * c)) a b c)
                (ComplexVector ex ey ez)) * w) (Vector (b * b + c * c) (- (a * b)) (- (a * c)))) =
         cv_ctimes w (transverse (Vector a b c) (ComplexVector ex ey ez))"
proof -
  define A where "A = complex_of_real a"
  define B where "B = complex_of_real b"
  define C where "C = complex_of_real c"
  define D where "D = B * B + C * C"
  have D: "complex_of_real (b * b + c * c) = D" by (simp add: D_def B_def C_def)
  have Dnz: "D \<noteq> 0" using nz D of_real_eq_0_iff [where 'a = complex] by metis
  have "complex_of_real (a * a + b * b + c * c) = 1" using u by simp
  then have U: "A * A + B * B + C * C = 1" by (simp add: A_def B_def C_def)
  note R = recompose_x [where ex = ex and ey = ey and ez = ez and w = w, OF Dnz D_def U]
  have m: "Matrix_times
                (Matrix 0 (- c / (b * b + c * c)) (b / (b * b + c * c))
                   1 (- (a * b) / (b * b + c * c)) (- (a * c) / (b * b + c * c)) a b c)
                (ComplexVector ex ey ez) =
           ComplexVector ((- C / D) * ey + (B / D) * ez)
             (ex + (- (A * B) / D) * ey + (- (A * C) / D) * ez)
             (A * ex + B * ey + C * ez)"
    unfolding Matrix_times.simps ComplexVector.sel of_real_divide of_real_minus D of_real_mult
      A_def [symmetric] B_def [symmetric] C_def [symmetric]
    by simp
  show ?thesis
    unfolding m cv_add_def cv_times_def cv_ctimes_def transverse_def Let_def ComplexVector.sel
      Vector.sel of_real_minus of_real_mult D A_def [symmetric] B_def [symmetric] C_def [symmetric]
    using R by (simp only: ComplexVector.inject of_real_0 mult_zero_right add_0_left simp_thms)
qed

lemma calc_field_direct_E_MoreReflect:
  "r_state r = MoreReflect \<Longrightarrow>
   calc_field_direct_E ps r s Ei =
     (let alpha = fst (calc_new_base (r_direction r));
          beta = snd (calc_new_base (r_direction r));
          A = Matrix_times
                (Matrix_inverse (Matrix (vx alpha) (vx beta) (vx (r_direction r))
                                        (vy alpha) (vy beta) (vy (r_direction r))
                                        (vz alpha) (vz beta) (vz (r_direction r)))) Ei;
          w = Euler (r_prev_mileage r / (r_prev_mileage r + s)) (- p_k ps * s)
      in cv_add (cv_times (cvx A * w) alpha) (cv_times (cvy A * w) beta))"
  by (simp add: calc_field_direct_E_def Matrix_times_unit Let_def split: prod.splits)

text \<open>
  For a unit direction the transport yields the carried field's transverse part, times
  the divergence factor and the phase: decomposing with the inverse of (alpha, beta, j)
  and recomposing on the same alpha and beta makes the lengths of alpha and beta cancel.
\<close>

lemma transport_transverse:
  assumes u: "vx (r_direction r) * vx (r_direction r) + vy (r_direction r) * vy (r_direction r) +
              vz (r_direction r) * vz (r_direction r) = 1"
    and st: "r_state r = MoreReflect"
  shows "calc_field_direct_E ps r s Ei =
         cv_ctimes (Euler (r_prev_mileage r / (r_prev_mileage r + s)) (- p_k ps * s))
           (transverse (r_direction r) Ei)"
proof -
  obtain a b c where j: "r_direction r = Vector a b c" by (cases "r_direction r")
  obtain ex ey ez where E: "Ei = ComplexVector ex ey ez" by (cases Ei)
  from u j have u': "a * a + b * b + c * c = 1" by simp
  from calc_new_base_unit [OF u'] show ?thesis
  proof
    assume h: "\<bar>a\<bar> > dbl_0_1 \<and> a * a + c * c \<noteq> 0 \<and>
          calc_new_base (Vector a b c) =
            (Vector c 0 (- a), Vector (- (a * b)) (a * a + c * c) (- (b * c)))"
    then have nz: "a * a + c * c \<noteq> 0"
      and al: "fst (calc_new_base (Vector a b c)) = Vector c 0 (- a)"
      and be: "snd (calc_new_base (Vector a b c)) =
               Vector (- (a * b)) (a * a + c * c) (- (b * c))" by simp_all
    show ?thesis
      unfolding calc_field_direct_E_MoreReflect [OF st] j al be Let_def Vector.sel
        inverse_basis_y [OF u' nz] E
      by (rule bridge_y [OF u' nz])
  next
    assume h: "\<not> \<bar>a\<bar> > dbl_0_1 \<and> b * b + c * c \<noteq> 0 \<and>
          calc_new_base (Vector a b c) =
            (Vector 0 (- c) b, Vector (b * b + c * c) (- (a * b)) (- (a * c)))"
    then have nz: "b * b + c * c \<noteq> 0"
      and al: "fst (calc_new_base (Vector a b c)) = Vector 0 (- c) b"
      and be: "snd (calc_new_base (Vector a b c)) =
               Vector (b * b + c * c) (- (a * b)) (- (a * c))" by simp_all
    show ?thesis
      unfolding calc_field_direct_E_MoreReflect [OF st] j al be Let_def Vector.sel
        inverse_basis_x [OF u' nz] E
      by (rule bridge_x [OF u' nz])
  qed
qed

lemma trace_E_beyond_limit:
  "depth > p_maxReflections ps \<Longrightarrow> trace_E acc gindex ps r depth E rxFields = Inr rxFields"
  by (subst trace_E.simps) simp

text \<open>
  C2 fails on the code, in the launch trace. The ray \<open>launched_ray\<close> is in Start state and
  pierces one receiver sphere at distance 9; its footprint 0.0003 * 81 is smaller than the
  sphere's cross-section pi. The field recorded is the launch field as it is, which differs
  from the launch field after the zoom factor of the sibling trace.
\<close>

theorem trace_start_records_uncorrected:
  "r_state launched_ray = Start \<and>
   r_unit_surface_area launched_ray * (r_prev_mileage launched_ray + rx_distance pierced_rx)\<^sup>2
     < pi * (rx_radius pierced_rx)\<^sup>2 \<and>
   trace (\<lambda>r. (IntersectResult_miss, [pierced_rx])) (\<lambda>g. 0) (scenario_params 2) 0
       launched_ray 0 [[]] =
     Inr [[(calc_field_direct (scenario_params 2) 0 launched_ray 9, [], 1 / 2)]] \<and>
   calc_field_direct (scenario_params 2) 0 launched_ray 9 \<noteq>
     zoom launched_ray pierced_rx (calc_field_direct (scenario_params 2) 0 launched_ray 9)"
proof -
  let ?m = "sqrt (10 powr (0 / 10 - 3) * 377 / (2 * pi)) / 9"
  let ?E = "Euler ?m (- p_k (scenario_params 2) * 9)"
  have "?m \<noteq> 0" by simp
  then have E: "?E \<noteq> 0" by (simp only: Euler_eq_0_iff) simp
  have f: "calc_field_direct (scenario_params 2) 0 launched_ray 9 = ComplexVector 0 0 (- ?E)"
    by (simp add: calc_field_direct_def launched_ray_def Vector_cross_def cv_add_def
        cv_times_def Euler_def Let_def complex_eq_iff)
  have lt: "(3 / 10000 * 81 :: real) < pi" using pi_ge_two by simp
  then have "sqrt (3 / 10000 * 81 / pi) < 1" by simp
  then have ne: "complex_of_real (sqrt (3 / 10000 * 81 / pi)) \<noteq> 1" by simp
  have z: "zoom launched_ray pierced_rx (ComplexVector 0 0 (- ?E)) =
           ComplexVector 0 0 (- ?E * complex_of_real (sqrt (3 / 10000 * 81 / pi)))"
    using lt by (simp add: zoom_def launched_ray_def pierced_rx_def cv_scale_def Let_def)
  have t: "trace (\<lambda>r. (IntersectResult_miss, [pierced_rx])) (\<lambda>g. 0) (scenario_params 2) 0
             launched_ray 0 [[]] =
           Inr [[(calc_field_direct (scenario_params 2) 0 launched_ray 9, [], 1 / 2)]]"
    by (simp add: trace_def IntersectResult_miss_def pierced_rx_def launched_ray_def
        AddField_at_def)
  have a: "r_unit_surface_area launched_ray *
             (r_prev_mileage launched_ray + rx_distance pierced_rx)\<^sup>2
           < pi * (rx_radius pierced_rx)\<^sup>2"
    using lt by (simp add: launched_ray_def pierced_rx_def)
  have n: "calc_field_direct (scenario_params 2) 0 launched_ray 9 \<noteq>
           zoom launched_ray pierced_rx (calc_field_direct (scenario_params 2) 0 launched_ray 9)"
    unfolding f z using E ne by simp
  show ?thesis using a t n by (simp add: launched_ray_def)
qed

text \<open>
  C3 as stated fails. For the unit direction (3/5, 4/5, 0), whose x component exceeds 0.1,
  the code's alpha is (0,1,0) x j = (0, 0, -3/5), of length 3/5, where the claim gives the
  normalised (1,0,0) x j = (0, 0, 1).
\<close>

theorem calc_new_base_counterexample:
  "Vector_length (Vector (3 / 5) (4 / 5) 0) = 1 \<and>
   fst (calc_new_base (Vector (3 / 5) (4 / 5) 0)) = Vector 0 0 (- 3 / 5) \<and>
   Vector_norm (Vector_cross (Vector 1 0 0) (Vector (3 / 5) (4 / 5) 0)) = Vector 0 0 1"
proof -
  have "(3 / 5 * (3 / 5) + 4 / 5 * (4 / 5) :: real) = 1" by simp
  then have l: "Vector_length (Vector (3 / 5) (4 / 5) 0) = 1"
    by (simp add: Vector_length_def)
  have "sqrt (16 / 25) = 4 / 5"
    by (rule real_sqrt_unique) (simp_all add: power2_eq_square)
  then have n: "Vector_norm (Vector_cross (Vector 1 0 0) (Vector (3 / 5) (4 / 5) 0)) = Vector 0 0 1"
    by (simp add: Vector_norm_def Vector_cross_def Vector_length_def)
  have b: "fst (calc_new_base (Vector (3 / 5) (4 / 5) 0)) = Vector 0 0 (- 3 / 5)"
    by (simp add: calc_new_base_def Vector_cross_def dbl_0_1_def)
  show ?thesis using l n b by simp
qed

text \<open>
  C3, as the code has it. For every unit direction j the transport basis is
  alpha = (0,1,0) x j if |j_x| exceeds the double 0.1, else (1,0,0) x j, with no
  normalisation, and beta = j x alpha. This basis is the one the transport of a carried
  field uses on a ray in MoreReflect state: with h the matrix of columns (alpha, beta, j),
  the vector A = inverse(h) Ei holds the components of Ei in the basis, h A = Ei, and the
  result is recomposed on the same alpha and beta from the first two components, each
  times Euler(prev_mileage / (prev_mileage + s), -k s).
\<close>

theorem calc_new_base_transport:
  assumes "Vector_length j = 1"
  shows "fst (calc_new_base j) =
     (if \<bar>vx j\<bar> > dbl_0_1 then Vector_cross (Vector 0 1 0) j
      else Vector_cross (Vector 1 0 0) j) \<and>
   snd (calc_new_base j) = Vector_cross j (fst (calc_new_base j)) \<and>
   (r_direction r = j \<and> r_state r = MoreReflect \<longrightarrow>
      (let alpha = fst (calc_new_base j);
           beta = snd (calc_new_base j);
           h = Matrix (vx alpha) (vx beta) (vx j)
                      (vy alpha) (vy beta) (vy j)
                      (vz alpha) (vz beta) (vz j);
           A = Matrix_times (Matrix_inverse h) Ei;
           w = Euler (r_prev_mileage r / (r_prev_mileage r + s)) (- p_k ps * s)
       in Matrix_times h A = Ei \<and>
          calc_field_direct_E ps r s Ei =
            cv_add (cv_times (cvx A * w) alpha) (cv_times (cvy A * w) beta)))"
proof (intro conjI impI)
  show "fst (calc_new_base j) =
     (if \<bar>vx j\<bar> > dbl_0_1 then Vector_cross (Vector 0 1 0) j
      else Vector_cross (Vector 1 0 0) j)"
    by (simp add: calc_new_base_def Let_def)
  show "snd (calc_new_base j) = Vector_cross j (fst (calc_new_base j))"
    by (simp add: calc_new_base_def Let_def)
next
  assume a: "r_direction r = j \<and> r_state r = MoreReflect"
  from assms have "sqrt (vx j * vx j + vy j * vy j + vz j * vz j) = 1"
    by (simp add: Vector_length_def)
  then have u: "vx j * vx j + vy j * vy j + vz j * vz j = 1"
    by (simp only: real_sqrt_eq_1_iff)
  note d = Matrix_times_inverse [OF transport_basis_det [OF u], of Ei]
  from a have st: "r_state r = MoreReflect" and dir: "r_direction r = j" by simp_all
  show "let alpha = fst (calc_new_base j);
           beta = snd (calc_new_base j);
           h = Matrix (vx alpha) (vx beta) (vx j)
                      (vy alpha) (vy beta) (vy j)
                      (vz alpha) (vz beta) (vz j);
           A = Matrix_times (Matrix_inverse h) Ei;
           w = Euler (r_prev_mileage r / (r_prev_mileage r + s)) (- p_k ps * s)
       in Matrix_times h A = Ei \<and>
          calc_field_direct_E ps r s Ei =
            cv_add (cv_times (cvx A * w) alpha) (cv_times (cvy A * w) beta)"
    unfolding Let_def using d calc_field_direct_E_MoreReflect [OF st, of ps s Ei]
    by (simp add: dir Let_def)
qed

theorem calc_new_base_transport_witness:
  "Vector_length (Vector (3 / 5) (4 / 5) 0) = 1 \<and>
   r_direction reflected_ray = Vector (3 / 5) (4 / 5) 0 \<and> r_state reflected_ray = MoreReflect \<and>
   snd (calc_new_base (Vector (3 / 5) (4 / 5) 0)) = Vector (- 12 / 25) (9 / 25) 0 \<and>
   (let A = Matrix_times
              (Matrix_inverse (Matrix 0 (- 12 / 25) (3 / 5) 0 (9 / 25) (4 / 5) (- 3 / 5) 0 0))
              (ComplexVector 1 0 0);
        w = Euler (5 / (5 + 9)) (- p_k (scenario_params 2) * 9)
    in Matrix_times (Matrix 0 (- 12 / 25) (3 / 5) 0 (9 / 25) (4 / 5) (- 3 / 5) 0 0) A =
         ComplexVector 1 0 0 \<and>
       calc_field_direct_E (scenario_params 2) reflected_ray 9 (ComplexVector 1 0 0) =
         cv_add (cv_times (cvx A * w) (Vector 0 0 (- 3 / 5)))
           (cv_times (cvy A * w) (Vector (- 12 / 25) (9 / 25) 0)))"
proof -
  have "(3 / 5 * (3 / 5) + 4 / 5 * (4 / 5) :: real) = 1" by simp
  then have l: "Vector_length (Vector (3 / 5) (4 / 5) 0) = 1"
    by (simp add: Vector_length_def)
  have h: "r_direction reflected_ray = Vector (3 / 5) (4 / 5) 0 \<and>
           r_state reflected_ray = MoreReflect"
    by (simp add: reflected_ray_def)
  have a: "fst (calc_new_base (Vector (3 / 5) (4 / 5) 0)) = Vector 0 0 (- 3 / 5)"
    by (simp add: calc_new_base_def Vector_cross_def dbl_0_1_def)
  have b: "Vector_cross (Vector (3 / 5) (4 / 5) 0) (Vector 0 0 (- 3 / 5)) =
           Vector (- 12 / 25) (9 / 25) 0"
    by (simp add: Vector_cross_def)
  have p: "r_prev_mileage reflected_ray = 5" by (simp add: reflected_ray_def)
  from calc_new_base_transport
      [OF l, of reflected_ray "ComplexVector 1 0 0" 9 "scenario_params 2"] h
  have c: "snd (calc_new_base (Vector (3 / 5) (4 / 5) 0)) =
             Vector_cross (Vector (3 / 5) (4 / 5) 0) (fst (calc_new_base (Vector (3 / 5) (4 / 5) 0)))"
    and t: "let alpha = fst (calc_new_base (Vector (3 / 5) (4 / 5) 0));
           beta = snd (calc_new_base (Vector (3 / 5) (4 / 5) 0));
           h = Matrix (vx alpha) (vx beta) (vx (Vector (3 / 5) (4 / 5) 0))
                      (vy alpha) (vy beta) (vy (Vector (3 / 5) (4 / 5) 0))
                      (vz alpha) (vz beta) (vz (Vector (3 / 5) (4 / 5) 0));
           A = Matrix_times (Matrix_inverse h) (ComplexVector 1 0 0);
           w = Euler (r_prev_mileage reflected_ray / (r_prev_mileage reflected_ray + 9))
                 (- p_k (scenario_params 2) * 9)
       in Matrix_times h A = ComplexVector 1 0 0 \<and>
          calc_field_direct_E (scenario_params 2) reflected_ray 9 (ComplexVector 1 0 0) =
            cv_add (cv_times (cvx A * w) alpha) (cv_times (cvy A * w) beta)"
    by blast+
  have s: "snd (calc_new_base (Vector (3 / 5) (4 / 5) 0)) = Vector (- 12 / 25) (9 / 25) 0"
    using c unfolding a b .
  show ?thesis
    using l h s t unfolding a s p Let_def Vector.sel by blast
qed

text \<open>
  C6. With maxReflections = 0 the trace of a launched ray (depth 0) leaves in the buckets
  what its own receiver loop, the Start-state loop with the launch field, has put there:
  the reflection trace called at any depth of 1 or more returns the buckets as it got
  them. (A hit that carries no geometry is the one other outcome of the model.)
\<close>

theorem trace_direct_only:
  assumes "p_maxReflections ps = 0"
  shows "(\<forall>depth \<ge> 1. trace_E acc gindex ps r' depth E rxFields = Inr rxFields) \<and>
    trace acc gindex ps txPower r 0 rxFields =
      (case (if snd (acc r) \<noteq> [] \<and> r_state r = Start
             then trace_rx ps txPower r (snd (acc r)) rxFields
             else Inr rxFields) of
         Inl e \<Rightarrow> Inl e
       | Inr rxFields' \<Rightarrow>
           if ir_hit (fst (acc r)) \<and> r_state r = Start \<and> ir_geometry (fst (acc r)) = None
           then Inl NullGeometry else Inr rxFields')"
proof
  show "\<forall>depth \<ge> 1. trace_E acc gindex ps r' depth E rxFields = Inr rxFields"
    using assms by (simp add: trace_E_beyond_limit)
next
  have "\<And>nr Er fs. trace_E acc gindex ps nr (0 + 1) Er fs = Inr fs"
    using assms by (simp add: trace_E_beyond_limit)
  then show "trace acc gindex ps txPower r 0 rxFields =
      (case (if snd (acc r) \<noteq> [] \<and> r_state r = Start
             then trace_rx ps txPower r (snd (acc r)) rxFields
             else Inr rxFields) of
         Inl e \<Rightarrow> Inl e
       | Inr rxFields' \<Rightarrow>
           if ir_hit (fst (acc r)) \<and> r_state r = Start \<and> ir_geometry (fst (acc r)) = None
           then Inl NullGeometry else Inr rxFields')"
    by (simp add: trace_def spawn_def Let_def split: sum.splits option.splits)
qed

theorem trace_direct_only_witness:
  "p_maxReflections (scenario_params 0) = 0 \<and>
   trace (\<lambda>r. (wall_hit, [pierced_rx])) (\<lambda>g. 0) (scenario_params 0) 0 launched_ray 0 [[]] =
     Inr [[(calc_field_direct (scenario_params 0) 0 launched_ray 9, [], 1 / 2)]]"
proof -
  have h: "p_maxReflections (scenario_params 0) = 0" by (simp add: scenario_params_def)
  have d: "trace_rx (scenario_params 0) 0 launched_ray [pierced_rx] [[]] =
           Inr [[(calc_field_direct (scenario_params 0) 0 launched_ray 9, [], 1 / 2)]]"
    by (simp add: pierced_rx_def launched_ray_def AddField_at_def)
  have g: "ir_geometry wall_hit \<noteq> None" "r_state launched_ray = Start"
    by (simp_all add: wall_hit_def launched_ray_def)
  show ?thesis
    using trace_direct_only [OF h, of "\<lambda>r. (wall_hit, [pierced_rx])" "\<lambda>g. 0" launched_ray
        "ComplexVector 0 0 0" "[[]]" 0 launched_ray] h d g
    by simp
qed

section \<open>Properties of the split selection and the construction\<close>

lemmas splitSAH_eval =
  splitSAH_def sort_events_def cmpKdEvent_def sweep.simps SAH_cost_def Vector_between_def
  Vector_sub_def DBL_MAX_def Let_def

text \<open>
  C1 fails on the code. For \<open>wall_scene\<close> in its box, splitSAH returns the plane x = 2 with
  cost 77/8. At that plane the sweep has NL = 3, NP = 6, NR = 1, and 77/8 is the cost with
  the six on-plane triangles in the right term; the claimed formula gives 95/8 there, and
  89/8 at the plane x = 1 (NL = 1, NP = 2, NR = 7), so the returned plane does not minimise
  the claimed cost.
\<close>

theorem splitSAH_planar_counted_right:
  "scene_min getBoundingBox wall_scene = Vector 0 0 0 \<and>
   scene_max getBoundingBox wall_scene = Vector 3 2 2 \<and>
   splitSAH getBoundingBox 0 0 (Vector 0 0 0) (Vector 3 2 2) wall_scene = (2, 0, 77 / 8) \<and>
   SAH_cost (Vector 0 0 0) (Vector 3 2 2) 0 2 3 6 1 = 77 / 8 \<and>
   SAH_cost_claimed (Vector 0 0 0) (Vector 3 2 2) 0 2 3 6 1 = 95 / 8 \<and>
   SAH_cost_claimed (Vector 0 0 0) (Vector 3 2 2) 0 1 1 2 7 = 89 / 8"
proof -
  have b: "scene_min getBoundingBox wall_scene = Vector 0 0 0"
          "scene_max getBoundingBox wall_scene = Vector 3 2 2"
    by (simp_all add: scene_min_def scene_max_def wall_scene_def floor_tri_def wall_at_def
        DBL_MAX_def)
  have s: "splitSAH getBoundingBox 0 0 (Vector 0 0 0) (Vector 3 2 2) wall_scene = (2, 0, 77 / 8)"
    by (simp add: splitSAH_eval wall_scene_def floor_tri_def wall_at_def)
  have c: "SAH_cost (Vector 0 0 0) (Vector 3 2 2) 0 2 3 6 1 = 77 / 8"
          "SAH_cost_claimed (Vector 0 0 0) (Vector 3 2 2) 0 2 3 6 1 = 95 / 8"
          "SAH_cost_claimed (Vector 0 0 0) (Vector 3 2 2) 0 1 1 2 7 = 89 / 8"
    by (simp_all add: SAH_cost_def SAH_cost_claimed_def Vector_between_def Vector_sub_def Let_def)
  show ?thesis using b s c by simp
qed













section \<open>Properties of the traversal\<close>

lemma leaf_loop_min:
  "leaf_loop gi ray tEn tEx gs (md, mr, rx) = Inr (md', mr', rx') \<Longrightarrow>
   (ir_hit mr \<longrightarrow> md = ir_distance mr) \<Longrightarrow>
   (ir_hit mr' \<longrightarrow> md' = ir_distance mr')"
proof (induction gs arbitrary: md mr rx)
  case Nil
  then show ?case by simp
next
  case (Cons g gs)
  show ?case
    using Cons.prems Cons.IH
    by (auto simp add: Let_def split: if_splits option.splits)
qed

lemma traverse_emits:
  "traverse fuel gi ray cur enPt exPt stack rxI rxPoints = Some (Inr (res, out, coll)) \<Longrightarrow>
   (ir_hit res \<longrightarrow>
      out = rxPoints @ map emit (filter (\<lambda>it. si_distance (snd it) < ir_distance res) coll)) \<and>
   (\<not> ir_hit res \<longrightarrow> out = rxPoints @ map emit coll)"
proof (induction fuel arbitrary: cur enPt exPt stack rxI)
  case 0
  then show ?case by simp
next
  case (Suc fuel)
  show ?case
  proof (cases cur)
    case None
    with Suc.prems show ?thesis by (auto simp add: IntersectResult_miss_def)
  next
    case (Some node)
    from Suc.prems Some obtain list exPt' stack' where
      d: "descend ray node enPt exPt stack = Inr (list, exPt', stack')"
      by (auto split: sum.splits)
    from Suc.prems Some d have b: "in_stack enPt \<and> in_stack exPt'"
      by (auto split: if_splits)
    from Suc.prems Some d b obtain md mr rx where
      l: "leaf_loop gi ray (se_t (stack' enPt)) (se_t (stack' exPt')) list
            (DBL_MAX, IntersectResult_miss, rxI) = Inr (md, mr, rx)"
      by (auto split: sum.splits)
    have m: "ir_hit mr \<longrightarrow> md = ir_distance mr"
      using leaf_loop_min [OF l] by (simp add: IntersectResult_miss_def)
    show ?thesis
    proof (cases "ir_hit mr")
      case True
      with Suc.prems Some d b l m show ?thesis by auto
    next
      case False
      with Suc.prems Some d b l have
        "traverse fuel gi ray (se_node (stack' exPt')) exPt' (se_prev (stack' exPt')) stack' rx
           rxPoints = Some (Inr (res, out, coll))"
        by simp
      then show ?thesis by (rule Suc.IH)
    qed
  qed
qed

lemma demo_traversal:
  "KdTreeAcc_intersect (Suc (Suc (Suc 0))) (\<lambda>mn mx r. Some (0, 13)) on_axis_intersect demo_stack
     demo_tree launched_ray [] =
  Some (Inr (on_axis_intersect wall10 launched_ray,
     [\<lparr>rx_index = 0, rx_distance = 2, rx_offset = 1, rx_radius = 1\<rparr>,
      \<lparr>rx_index = 1, rx_distance = 7, rx_offset = 1, rx_radius = 1\<rparr>],
     [(0, \<lparr>si_distance = 2, si_offset = 1, si_radius = 1\<rparr>),
      (1, \<lparr>si_distance = 7, si_offset = 1, si_radius = 1\<rparr>),
      (2, \<lparr>si_distance = 11, si_offset = 1, si_radius = 1\<rparr>)]))"
  by (simp add: KdTreeAcc_intersect_def demo_tree_def wall_leaf_def demo_stack_def launched_ray_def
      on_axis_intersect_def wall10_def in_stack_def push_far_def
      Vector_add_def Vector_scale_def Vector_between_def Vector_sub_def Vector_length_def
      guard_band_def DBL_MAX_def IntersectResult_miss_def emit_def Let_def)


text \<open>
  C4. When the traversal returns an occluder hit, the receivers it has appended to
  \<^verbatim>\<open>rxPoints\<close> are exactly the collected ones whose recorded distance is less than the
  distance of the occluder, so each reported distance is at most the occluder's; when it
  returns no occluder, it has appended all collected receivers.
\<close>

theorem intersect_emits:
  assumes "KdTreeAcc_intersect fuel box_intersect gi stack0 rootNode ray rxPoints =
             Some (Inr (result, out, collected))"
  shows "(ir_hit result \<longrightarrow>
            out = rxPoints @ map emit
                    (filter (\<lambda>it. si_distance (snd it) < ir_distance result) collected) \<and>
            (\<forall>rx \<in> set (drop (length rxPoints) out). rx_distance rx \<le> ir_distance result)) \<and>
         (\<not> ir_hit result \<longrightarrow> out = rxPoints @ map emit collected)"
proof (cases "box_intersect (n_min rootNode) (n_max rootNode) ray")
  case None
  with assms show ?thesis
    by (auto simp add: KdTreeAcc_intersect_def IntersectResult_miss_def)
next
  case (Some ab)
  obtain a b where ab: "ab = (a, b)" by (cases ab)
  from assms Some ab obtain stack where
    "traverse fuel gi ray (Some rootNode) 0 1 stack [] rxPoints = Some (Inr (result, out, collected))"
    by (simp add: KdTreeAcc_intersect_def Let_def)
  from traverse_emits [OF this] show ?thesis
    by (auto simp add: emit_def)
qed


theorem intersect_emits_witness:
  "KdTreeAcc_intersect (Suc (Suc (Suc 0))) (\<lambda>mn mx r. Some (0, 13)) on_axis_intersect demo_stack
     demo_tree launched_ray [] =
   Some (Inr (on_axis_intersect wall10 launched_ray,
     [\<lparr>rx_index = 0, rx_distance = 2, rx_offset = 1, rx_radius = 1\<rparr>,
      \<lparr>rx_index = 1, rx_distance = 7, rx_offset = 1, rx_radius = 1\<rparr>],
     [(0, \<lparr>si_distance = 2, si_offset = 1, si_radius = 1\<rparr>),
      (1, \<lparr>si_distance = 7, si_offset = 1, si_radius = 1\<rparr>),
      (2, \<lparr>si_distance = 11, si_offset = 1, si_radius = 1\<rparr>)])) \<and>
   ir_hit (on_axis_intersect wall10 launched_ray) \<and>
   [\<lparr>rx_index = 0, rx_distance = 2, rx_offset = 1, rx_radius = 1\<rparr>,
    \<lparr>rx_index = 1, rx_distance = 7, rx_offset = 1, rx_radius = 1\<rparr>] =
   [] @ map emit
     (filter (\<lambda>it. si_distance (snd it) < ir_distance (on_axis_intersect wall10 launched_ray))
        [(0, \<lparr>si_distance = 2, si_offset = 1, si_radius = 1\<rparr>),
         (1, \<lparr>si_distance = 7, si_offset = 1, si_radius = 1\<rparr>),
         (2, \<lparr>si_distance = 11, si_offset = 1, si_radius = 1\<rparr>)])"
proof -
  have h: "ir_hit (on_axis_intersect wall10 launched_ray)"
    by (simp add: on_axis_intersect_def wall10_def)
  from intersect_emits [OF demo_traversal] h demo_traversal show ?thesis
    by blast
qed

lemma leaves_pos: "0 < leaves n"
  by (induction n) simp_all

lemma exit_chain_bounds:
  "exit_chain stack e ns \<Longrightarrow> 1 \<le> e \<and> e \<le> 1 + 2 * int (length ns)"
proof (induction ns arbitrary: e)
  case Nil
  then show ?case by simp
next
  case (Cons n ns)
  from Cons.prems have "exit_chain stack (se_prev (stack e)) ns"
    and "se_prev (stack e) < e" and "e \<le> se_prev (stack e) + 2" by simp_all
  with Cons.IH [of "se_prev (stack e)"] show ?case by simp
qed

lemma exit_chain_upd:
  "exit_chain stack e ns \<Longrightarrow> e < i \<Longrightarrow> exit_chain (stack(i := v)) e ns"
proof (induction ns arbitrary: e)
  case Nil
  then show ?case by simp
next
  case (Cons n ns)
  from Cons.prems have p: "se_prev (stack e) < i" by simp
  from Cons.prems have "exit_chain stack (se_prev (stack e)) ns" by simp
  from Cons.IH [OF this p] Cons.prems show ?case by simp
qed

lemma pending_fits_length: "pending_fits H ns \<Longrightarrow> ns \<noteq> [] \<Longrightarrow> length ns \<le> H"
  by (cases ns) simp_all

lemma push_far_ok:
  assumes c: "exit_chain stack exPt ns" and l: "length ns < 24"
  shows "\<exists>exPt' stack'.
           push_far ray axis splitVal far enPt exPt stack = Inr (exPt', stack') \<and>
           exPt < exPt' \<and> exPt' \<noteq> enPt \<and> stack' enPt = stack enPt \<and>
           (\<forall>i \<le> exPt. stack' i = stack i) \<and>
           exit_chain stack' exPt' (far # ns)"
proof -
  define e where "e = (if exPt + 1 = enPt then exPt + 1 + 1 else exPt + 1)"
  from exit_chain_bounds [OF c] l have b: "1 \<le> exPt" "exPt \<le> 47" by simp_all
  have e: "exPt < e" "e \<le> exPt + 2" "e \<noteq> enPt" by (simp_all add: e_def)
  with b have i: "in_stack e" by (simp add: in_stack_def)
  define t where "t = (splitVal - vidx (r_origin ray) axis) / vidx (r_direction ray) axis"
  let ?elem =
    "\<lparr>se_t = t,
      se_pb = vset (vset (vset (se_pb (stack e)) axis splitVal)
                      ((axis + 1) mod 3)
                      (vidx (r_origin ray) ((axis + 1) mod 3)
                       + t * vidx (r_direction ray) ((axis + 1) mod 3)))
                ((axis + 2) mod 3)
                (vidx (r_origin ray) ((axis + 2) mod 3)
                 + t * vidx (r_direction ray) ((axis + 2) mod 3)),
      se_node = Some far,
      se_prev = exPt\<rparr>"
  have p: "push_far ray axis splitVal far enPt exPt stack = Inr (e, stack(e := ?elem))"
    using i unfolding push_far_def Let_def e_def t_def by simp
  have "exit_chain (stack(e := ?elem)) exPt ns"
    using c e(1) by (rule exit_chain_upd)
  then have "exit_chain (stack(e := ?elem)) e (far # ns)"
    using e by simp
  then show ?thesis using p e by auto
qed

lemma descend_ok:
  assumes "exit_chain stack exPt ns" "in_stack enPt" "enPt \<noteq> exPt"
    "height node + length ns \<le> H" "pending_fits H ns" "H \<le> 24"
  shows "\<exists>list exPt' stack' fs.
           descend ray node enPt exPt stack = Inr (list, exPt', stack') \<and>
           exit_chain stack' exPt' (fs @ ns) \<and> pending_fits H (fs @ ns) \<and> exPt' \<noteq> enPt \<and>
           sum_list (map leaves fs) < leaves node"
  using assms
proof (induction node arbitrary: exPt stack ns)
  case (Leaf mn mx list)
  show ?case
    by (rule exI [of _ list], rule exI [of _ exPt], rule exI [of _ stack], rule exI [of _ "[]"])
      (use Leaf.prems in simp)
next
  case (Node mn mx axis splitVal left right)
  from Node.prems have len: "length ns < 24" by simp
  from exit_chain_bounds [OF Node.prems(1)] len have ex: "in_stack exPt"
    by (simp add: in_stack_def)
  have hl: "height left + length ns \<le> H" and hr: "height right + length ns \<le> H"
    using Node.prems(4) by simp_all
  have stay_left: ?case if "descend ray (Node mn mx axis splitVal left right) enPt exPt stack =
      descend ray left enPt exPt stack"
  proof -
    from Node.IH(1) [OF Node.prems(1,2,3) hl Node.prems(5,6)] obtain list exPt' stack' fs where
      "descend ray left enPt exPt stack = Inr (list, exPt', stack')"
      "exit_chain stack' exPt' (fs @ ns)" "pending_fits H (fs @ ns)" "exPt' \<noteq> enPt"
      "sum_list (map leaves fs) < leaves left" by blast
    with that show ?thesis by (auto simp add: trans_less_add1)
  qed
  have stay_right: ?case if "descend ray (Node mn mx axis splitVal left right) enPt exPt stack =
      descend ray right enPt exPt stack"
  proof -
    from Node.IH(2) [OF Node.prems(1,2,3) hr Node.prems(5,6)] obtain list exPt' stack' fs where
      "descend ray right enPt exPt stack = Inr (list, exPt', stack')"
      "exit_chain stack' exPt' (fs @ ns)" "pending_fits H (fs @ ns)" "exPt' \<noteq> enPt"
      "sum_list (map leaves fs) < leaves right" by blast
    with that show ?thesis by (auto simp add: trans_less_add2)
  qed
  have push_left: ?case if "descend ray (Node mn mx axis splitVal left right) enPt exPt stack =
      (case push_far ray axis splitVal right enPt exPt stack of
         Inl e \<Rightarrow> Inl e
       | Inr (exPt', stack') \<Rightarrow> descend ray left enPt exPt' stack')"
  proof -
    from push_far_ok [OF Node.prems(1) len] obtain e st where
      p: "push_far ray axis splitVal right enPt exPt stack = Inr (e, st)"
      and e: "e \<noteq> enPt" and c: "exit_chain st e (right # ns)" by blast
    have h: "height left + length (right # ns) \<le> H" using Node.prems(4) by simp
    have f: "pending_fits H (right # ns)" using Node.prems(4,5) by simp
    from Node.IH(1) [OF c Node.prems(2) e [symmetric] h f Node.prems(6)]
    obtain list exPt' stack' fs where
      r: "descend ray left enPt e st = Inr (list, exPt', stack')"
      "exit_chain stack' exPt' (fs @ right # ns)" "pending_fits H (fs @ right # ns)"
      "exPt' \<noteq> enPt" "sum_list (map leaves fs) < leaves left" by blast
    have "descend ray (Node mn mx axis splitVal left right) enPt exPt stack =
          Inr (list, exPt', stack')"
      using that p r(1) by simp
    moreover have "exit_chain stack' exPt' ((fs @ [right]) @ ns)"
      "pending_fits H ((fs @ [right]) @ ns)" using r by simp_all
    moreover have "sum_list (map leaves (fs @ [right])) <
                   leaves (Node mn mx axis splitVal left right)"
      using r(5) by simp
    ultimately show ?thesis using r(4) by blast
  qed
  have push_right: ?case if "descend ray (Node mn mx axis splitVal left right) enPt exPt stack =
      (case push_far ray axis splitVal left enPt exPt stack of
         Inl e \<Rightarrow> Inl e
       | Inr (exPt', stack') \<Rightarrow> descend ray right enPt exPt' stack')"
  proof -
    from push_far_ok [OF Node.prems(1) len] obtain e st where
      p: "push_far ray axis splitVal left enPt exPt stack = Inr (e, st)"
      and e: "e \<noteq> enPt" and c: "exit_chain st e (left # ns)" by blast
    have h: "height right + length (left # ns) \<le> H" using Node.prems(4) by simp
    have f: "pending_fits H (left # ns)" using Node.prems(4,5) by simp
    from Node.IH(2) [OF c Node.prems(2) e [symmetric] h f Node.prems(6)]
    obtain list exPt' stack' fs where
      r: "descend ray right enPt e st = Inr (list, exPt', stack')"
      "exit_chain stack' exPt' (fs @ left # ns)" "pending_fits H (fs @ left # ns)"
      "exPt' \<noteq> enPt" "sum_list (map leaves fs) < leaves right" by blast
    have "descend ray (Node mn mx axis splitVal left right) enPt exPt stack =
          Inr (list, exPt', stack')"
      using that p r(1) by simp
    moreover have "exit_chain stack' exPt' ((fs @ [left]) @ ns)"
      "pending_fits H ((fs @ [left]) @ ns)" using r by simp_all
    moreover have "sum_list (map leaves (fs @ [left])) <
                   leaves (Node mn mx axis splitVal left right)"
      using r(5) by simp
    ultimately show ?thesis using r(4) by blast
  qed
  show ?case
  proof (cases "vidx (se_pb (stack enPt)) axis \<le> splitVal")
    case True
    show ?thesis
    proof (cases "vidx (se_pb (stack exPt)) axis \<le> splitVal")
      case T2: True
      show ?thesis by (rule stay_left) (simp add: Node.prems(2) ex True T2 del: vidx.simps)
    next
      case False
      then have "vidx (se_pb (stack exPt)) axis \<noteq> splitVal" by simp
      with False show ?thesis
        by (intro push_left) (simp add: Node.prems(2) ex True del: vidx.simps)
    qed
  next
    case False
    show ?thesis
    proof (cases "splitVal < vidx (se_pb (stack exPt)) axis")
      case T2: True
      show ?thesis by (rule stay_right) (simp add: Node.prems(2) ex False T2 del: vidx.simps)
    next
      case F2: False
      show ?thesis by (rule push_right) (simp add: Node.prems(2) ex False F2 del: vidx.simps)
    qed
  qed
qed


lemma leaf_loop_error:
  "leaf_loop gi ray tEn tEx gs st = Inl e \<Longrightarrow> e = NullGeometry"
proof (induction gs arbitrary: st)
  case Nil
  then show ?case by simp
next
  case (Cons g gs)
  obtain md mr rx where st: "st = (md, mr, rx)" by (cases st)
  show ?case
    using Cons.prems Cons.IH unfolding st
    by (auto simp add: Let_def split: if_splits option.splits)
qed

lemma traverse_ok:
  assumes "exit_chain stack exPt ns" "in_stack enPt" "enPt \<noteq> exPt"
    "height node + length ns \<le> H" "pending_fits H ns" "H \<le> 24"
    "leaves node + sum_list (map leaves ns) < fuel"
  shows "\<exists>res. traverse fuel gi ray (Some node) enPt exPt stack rxI rxPoints = Some res \<and>
               res \<noteq> Inl StackOutOfBounds"
  using assms
proof (induction fuel arbitrary: node enPt exPt stack ns rxI)
  case 0
  then show ?case by simp
next
  case (Suc fuel)
  from descend_ok [OF Suc.prems(1-6)] obtain list exPt' stack' fs where
    d: "descend ray node enPt exPt stack = Inr (list, exPt', stack')"
    and c: "exit_chain stack' exPt' (fs @ ns)" and f: "pending_fits H (fs @ ns)"
    and ne: "exPt' \<noteq> enPt" and lv: "sum_list (map leaves fs) < leaves node" by blast
  have len: "length (fs @ ns) \<le> 24"
    using pending_fits_length [OF f] Suc.prems(6) by (cases "fs @ ns = []") auto
  from exit_chain_bounds [OF c] len have ex: "in_stack exPt'"
    by (simp add: in_stack_def)
  show ?case
  proof (cases "leaf_loop gi ray (se_t (stack' enPt)) (se_t (stack' exPt')) list
                  (DBL_MAX, IntersectResult_miss, rxI)")
    case (Inl e)
    then have "e = NullGeometry" by (rule leaf_loop_error)
    with Inl d ex Suc.prems(2) show ?thesis by simp
  next
    case (Inr st)
    obtain md mr rx where st: "st = (md, mr, rx)" by (cases st)
    show ?thesis
    proof (cases "ir_hit mr")
      case True
      with Inr st d ex Suc.prems(2) show ?thesis by simp
    next
      case False
      with Inr st d ex Suc.prems(2) have t:
        "traverse (Suc fuel) gi ray (Some node) enPt exPt stack rxI rxPoints =
         traverse fuel gi ray (se_node (stack' exPt')) exPt' (se_prev (stack' exPt')) stack' rx
           rxPoints" by simp
      show ?thesis
      proof (cases "fs @ ns")
        case Nil
        with c have n: "se_node (stack' exPt') = None" by simp
        from Suc.prems(7) leaves_pos [of node] obtain fuel' where "fuel = Suc fuel'"
          by (cases fuel) simp_all
        with t n show ?thesis by simp
      next
        case (Cons n rest)
        with c have n: "se_node (stack' exPt') = Some n"
          and p: "se_prev (stack' exPt') < exPt'"
          and c': "exit_chain stack' (se_prev (stack' exPt')) rest" by simp_all
        from f Cons have h: "height n + length rest \<le> H" and f': "pending_fits H rest"
          by simp_all
        have "sum_list (map leaves (fs @ ns)) = leaves n + sum_list (map leaves rest)"
          using Cons by simp
        then have m: "leaves n + sum_list (map leaves rest) < fuel"
          using lv Suc.prems(7) by simp
        from p have q: "exPt' \<noteq> se_prev (stack' exPt')" by simp
        from Suc.IH [OF c' ex q h f' Suc.prems(6) m] t n show ?thesis by simp
      qed
    qed
  qed
qed

lemma intersect_ok:
  assumes "height rootNode \<le> 19" "leaves rootNode < fuel"
  shows "\<exists>res. KdTreeAcc_intersect fuel box_intersect gi stack0 rootNode ray rxPoints = Some res \<and>
               res \<noteq> Inl StackOutOfBounds"
proof (cases "box_intersect (n_min rootNode) (n_max rootNode) ray")
  case None
  then show ?thesis by (simp add: KdTreeAcc_intersect_def)
next
  case (Some ab)
  obtain a b where ab: "ab = (a, b)" by (cases ab)
  define stack where "stack = (stack0(0 := (stack0 0)
                         \<lparr>se_t := a,
                          se_pb := (if a \<ge> 0
                                    then Vector_add (r_origin ray) (Vector_scale (r_direction ray) a)
                                    else r_origin ray)\<rparr>))
                        (1 := ((stack0(0 := (stack0 0)
                         \<lparr>se_t := a,
                          se_pb := (if a \<ge> 0
                                    then Vector_add (r_origin ray) (Vector_scale (r_direction ray) a)
                                    else r_origin ray)\<rparr>)) 1)
                         \<lparr>se_t := b,
                          se_pb := Vector_add (r_origin ray) (Vector_scale (r_direction ray) b),
                          se_node := None\<rparr>)"
  have eq: "KdTreeAcc_intersect fuel box_intersect gi stack0 rootNode ray rxPoints =
            traverse fuel gi ray (Some rootNode) 0 1 stack [] rxPoints"
    using Some ab by (simp add: KdTreeAcc_intersect_def Let_def stack_def)
  have c: "exit_chain stack 1 []" by (simp add: stack_def)
  have i: "in_stack 0" by (simp add: in_stack_def)
  have h: "height rootNode + length ([] :: KdNode list) \<le> 24" using assms(1) by simp
  have m: "leaves rootNode + sum_list (map leaves []) < fuel" using assms(2) by simp
  from traverse_ok [OF c i _ h _ _ m, of gi ray "[]" rxPoints] show ?thesis
    unfolding eq by simp
qed


text \<open>
  C9. For every tree of height at most 19, the bound that the construction keeps, and
  every ray, the traversal returns, given fuel for one pass per leaf, and no read or write
  of the stack leaves the 50 entries. A push, made while the exit entries in use form a
  chain of fewer than 24 far children, writes a slot that is not the entry slot and lies
  above every slot of the chain: the entry slot and the chain are as before.
\<close>

theorem intersect_stack_in_bounds:
  assumes "height rootNode \<le> 19" and "leaves rootNode < fuel"
  shows "(\<exists>res. KdTreeAcc_intersect fuel box_intersect gi stack0 rootNode ray rxPoints = Some res \<and>
                res \<noteq> Inl StackOutOfBounds) \<and>
         (\<forall>stack enPt exPt ns axis splitVal far.
            exit_chain stack exPt ns \<and> length ns < 24 \<longrightarrow>
            (\<exists>exPt' stack'.
               push_far ray axis splitVal far enPt exPt stack = Inr (exPt', stack') \<and>
               in_stack exPt' \<and> exPt < exPt' \<and> exPt' \<noteq> enPt \<and> stack' enPt = stack enPt \<and>
               (\<forall>i \<le> exPt. stack' i = stack i) \<and>
               exit_chain stack' exPt' (far # ns)))"
proof (intro conjI allI impI)
  show "\<exists>res. KdTreeAcc_intersect fuel box_intersect gi stack0 rootNode ray rxPoints = Some res \<and>
              res \<noteq> Inl StackOutOfBounds"
    using assms by (rule intersect_ok)
next
  fix stack enPt exPt ns axis splitVal far
  assume a: "exit_chain stack exPt ns \<and> length ns < 24"
  then have c: "exit_chain stack exPt ns" and l: "length ns < 24" by simp_all
  from push_far_ok [OF c l, of ray axis splitVal far enPt] obtain exPt' stack' where
    p: "push_far ray axis splitVal far enPt exPt stack = Inr (exPt', stack')"
       "exPt < exPt'" "exPt' \<noteq> enPt" "stack' enPt = stack enPt"
       "\<forall>i \<le> exPt. stack' i = stack i" "exit_chain stack' exPt' (far # ns)" by blast
  from exit_chain_bounds [OF p(6)] l have "in_stack exPt'" by (simp add: in_stack_def)
  with p show "\<exists>exPt' stack'.
               push_far ray axis splitVal far enPt exPt stack = Inr (exPt', stack') \<and>
               in_stack exPt' \<and> exPt < exPt' \<and> exPt' \<noteq> enPt \<and> stack' enPt = stack enPt \<and>
               (\<forall>i \<le> exPt. stack' i = stack i) \<and>
               exit_chain stack' exPt' (far # ns)" by blast
qed

theorem intersect_stack_in_bounds_witness:
  "height demo_tree \<le> 19 \<and> leaves demo_tree < Suc (Suc (Suc 0)) \<and>
   (\<exists>res. KdTreeAcc_intersect (Suc (Suc (Suc 0))) (\<lambda>mn mx r. Some (0, 13)) on_axis_intersect
            demo_stack demo_tree launched_ray [] = Some res \<and> res \<noteq> Inl StackOutOfBounds) \<and>
   exit_chain (demo_stack(1 := (demo_stack 1)\<lparr>se_node := None\<rparr>)) 1 [] \<and>
   (\<exists>stack'. push_far launched_ray 0 5 wall_leaf 0 1
                (demo_stack(1 := (demo_stack 1)\<lparr>se_node := None\<rparr>)) = Inr (2, stack') \<and>
              exit_chain stack' 2 [wall_leaf])"
proof -
  have h: "height demo_tree \<le> 19" "leaves demo_tree < Suc (Suc (Suc 0))"
    by (simp_all add: demo_tree_def wall_leaf_def)
  have c: "exit_chain (demo_stack(1 := (demo_stack 1)\<lparr>se_node := None\<rparr>)) 1 [] \<and>
           length ([] :: KdNode list) < 24" by simp
  from intersect_stack_in_bounds [OF h, of "\<lambda>mn mx r. Some (0, 13)" on_axis_intersect demo_stack
      launched_ray "[]"]
  have r: "\<exists>res. KdTreeAcc_intersect (Suc (Suc (Suc 0))) (\<lambda>mn mx r. Some (0, 13))
                   on_axis_intersect demo_stack demo_tree launched_ray [] = Some res \<and>
                 res \<noteq> Inl StackOutOfBounds"
    and p: "\<And>stack enPt exPt ns axis splitVal far.
            exit_chain stack exPt ns \<and> length ns < 24 \<Longrightarrow>
            (\<exists>exPt' stack'.
               push_far launched_ray axis splitVal far enPt exPt stack = Inr (exPt', stack') \<and>
               in_stack exPt' \<and> exPt < exPt' \<and> exPt' \<noteq> enPt \<and> stack' enPt = stack enPt \<and>
               (\<forall>i \<le> exPt. stack' i = stack i) \<and>
               exit_chain stack' exPt' (far # ns))"
    by blast+
  from p [OF c, of 0 5 wall_leaf 0] obtain e st where
    q: "push_far launched_ray 0 5 wall_leaf 0 1
          (demo_stack(1 := (demo_stack 1)\<lparr>se_node := None\<rparr>)) = Inr (e, st)"
       "exit_chain st e [wall_leaf]" by blast
  have "e = 2" using q(1) by (simp add: push_far_def Let_def in_stack_def)
  with q have "\<exists>stack'. push_far launched_ray 0 5 wall_leaf 0 1
                (demo_stack(1 := (demo_stack 1)\<lparr>se_node := None\<rparr>)) = Inr (2, stack') \<and>
              exit_chain stack' 2 [wall_leaf]" by blast
  then show ?thesis using h r c by blast
qed

end
